theory Spec2Isabelle
  imports Complex_Main "HOL-Library.Sublist"
begin

section \<open>Data model\<close>

text \<open>
  The engine of \<^verbatim>\<open>src/exo/inference/torch/pt_inference.py\<close>
  (class \<^verbatim>\<open>TorchDynamicShardInferenceEngine\<close>) is embedded as pure functions
  over an explicit engine record. Every exception is a value: an operation returns
  \<open>error + result\<close> together with the engine as the exception (or the return)
  leaves it. The coroutine \<^verbatim>\<open>await\<close>s and the single-worker executor run one
  after the other in the source, so the embedding is sequential.
\<close>

datatype error =
    Raised string   \<comment> \<open>an exception raised inside a collaborator\<close>
  | AttributeError  \<comment> \<open>access to an attribute the object does not have\<close>
  | IndexError      \<comment> \<open>numpy indexing out of range\<close>
  | RuntimeError    \<comment> \<open>torch.cat on tensors that do not fit\<close>
  | TypeError       \<comment> \<open>an operation on a value of the wrong type\<close>

text \<open>
  \<^verbatim>\<open>exo.inference.shard.Shard\<close> is imported by the source; it is a value
  object compared with \<^verbatim>\<open>==\<close>, field by field.
\<close>

record Shard =
  model_id :: string
  start_layer :: int
  end_layer :: int
  n_layers :: int

text \<open>
  A numpy array or torch tensor: its shape and its elements in row-major order.
  \<^verbatim>\<open>torch.tensor(a)\<close>, \<^verbatim>\<open>.to(device)\<close>, \<^verbatim>\<open>.clone()\<close> and
  \<^verbatim>\<open>.numpy(force=True)\<close> copy or convert without changing either. Element
  types are not modelled: an array holds elements of a type that each of these
  conversions accepts.
\<close>

datatype 'a ndarray = NDArray (shape: "nat list") (data: "'a list")

definition ndim :: "'a ndarray \<Rightarrow> nat" where
  "ndim a = length (shape a)"

text \<open>
  What a collaborator was called with; the engine's \<open>calls\<close> field lists the
  calls in the order they were made (what a counting stub observes in a test).
\<close>

datatype 'a call =
    Download Shard
  | LoadConfig string
  | LlamaTokenizer string
  | ResolveTokenizer string
  | BuildModel Shard
  | LoadWeights string Shard
  | Generate "'a ndarray option" "'a ndarray option"

text \<open>
  The instance attributes set by \<^verbatim>\<open>__init__\<close> (\<open>shard\<close>, \<open>request_id\<close>,
  \<open>past_tokens\<close>, \<open>use_llama_tokenizer\<close>) and the two that \<^verbatim>\<open>ensure_shard\<close>
  creates (\<open>tokenizer\<close>, \<open>sharded_model\<close>: \<open>None\<close> while the attribute does not
  exist).
\<close>

record ('a, 'tok, 'mdl) engine =
  shard :: "Shard option"
  request_id :: "string option"
  past_tokens :: "'a ndarray option"
  use_llama_tokenizer :: bool
  tokenizer :: "'tok option"
  sharded_model :: "'mdl option"
  calls :: "'a call list"

text \<open>
  The code the engine calls and that lives outside this file: the downloader, the
  config loader, the two tokenizer constructors, the model class with its
  \<^verbatim>\<open>generate\<close> method, the weight loader (it fills the model object it is given,
  so it returns the object as it leaves it, also when it raises) and torchtune's
  \<^verbatim>\<open>sample\<close>. They are parameters of every operation. \<^verbatim>\<open>generate\<close>
  is read as a function of the model and its two arguments (the source builds the model
  with \<^verbatim>\<open>use_cache=False\<close>).
\<close>

record ('a, 'tok, 'mdl, 'cfg) collaborators =
  shard_downloader :: "Shard \<Rightarrow> error + string"
  load_model_config :: "string \<Rightarrow> error + 'cfg"
  llama3_tokenizer :: "string \<Rightarrow> error + 'tok"
  resolve_tokenizer :: "string \<Rightarrow> error + 'tok"
  ShardedLlamaModel :: "'cfg \<Rightarrow> Shard \<Rightarrow> error + 'mdl"
  load_model_weights_torchtune :: "string \<Rightarrow> Shard \<Rightarrow> 'mdl \<Rightarrow> (error + unit) \<times> 'mdl"
  generate :: "'mdl \<Rightarrow> 'a ndarray option \<Rightarrow> 'a ndarray option
                 \<Rightarrow> error + ('a ndarray option \<times> 'a ndarray option)"
  tt_sample :: "'a ndarray \<Rightarrow> real \<Rightarrow> int \<Rightarrow> error + 'a ndarray"

definition init :: "bool \<Rightarrow> ('a, 'tok, 'mdl) engine" where
  "init llama =
     \<lparr>shard = None, request_id = None, past_tokens = None, use_llama_tokenizer = llama,
      tokenizer = None, sharded_model = None, calls = []\<rparr>"

section \<open>Shard state: \<^verbatim>\<open>ensure_shard\<close>\<close>

text \<open>
  Lines 140-185. The descriptor is stored first (line 149); then the downloader, the
  config loader, the tokenizer constructor chosen by \<open>use_llama_tokenizer\<close>, the model
  constructor and the weight loader run in this order, each assignment happening as
  soon as its right-hand side has returned. An exception leaves the engine as the
  assignments made so far have left it.
\<close>

definition ensure_shard ::
  "('a, 'tok, 'mdl, 'cfg) collaborators \<Rightarrow> Shard \<Rightarrow> ('a, 'tok, 'mdl) engine
     \<Rightarrow> (error + unit) \<times> ('a, 'tok, 'mdl) engine" where
  "ensure_shard c sh s =
     (if shard s = Some sh then (Inr (), s)
      else
        let s1 = s\<lparr>shard := Some sh, calls := calls s @ [Download sh]\<rparr> in
        (case shard_downloader c sh of
          Inl e \<Rightarrow> (Inl e, s1)
        | Inr model_path \<Rightarrow>
            let s2 = s1\<lparr>calls := calls s1 @ [LoadConfig (model_path @ ''/config.json'')]\<rparr> in
            (case load_model_config c (model_path @ ''/config.json'') of
              Inl e \<Rightarrow> (Inl e, s2)
            | Inr model_config \<Rightarrow>
                let s3 = s2\<lparr>calls := calls s2 @
                            [if use_llama_tokenizer s2
                             then LlamaTokenizer (model_path @ ''/original/tokenizer.model'')
                             else ResolveTokenizer model_path]\<rparr> in
                (case (if use_llama_tokenizer s2
                       then llama3_tokenizer c (model_path @ ''/original/tokenizer.model'')
                       else resolve_tokenizer c model_path) of
                  Inl e \<Rightarrow> (Inl e, s3)
                | Inr tok \<Rightarrow>
                    let s4 = s3\<lparr>tokenizer := Some tok, calls := calls s3 @ [BuildModel sh]\<rparr> in
                    (case ShardedLlamaModel c model_config sh of
                      Inl e \<Rightarrow> (Inl e, s4)
                    | Inr m \<Rightarrow>
                        let s5 = s4\<lparr>sharded_model := Some m,
                                    calls := calls s4 @ [LoadWeights model_path sh]\<rparr> in
                        (case load_model_weights_torchtune c model_path sh m of
                          (r, m') \<Rightarrow> (r, s5\<lparr>sharded_model := Some m'\<rparr>)))))))"

section \<open>Tensor operations the engine uses\<close>

text \<open>
  \<^verbatim>\<open>torch.cat((a, b), dim=-1)\<close>: both tensors have at least one axis and agree
  on every axis but the last; row by row, the elements of \<open>b\<close> follow those of \<open>a\<close>.
  Anything else raises.
\<close>

fun cat_rows :: "nat \<Rightarrow> nat \<Rightarrow> nat \<Rightarrow> 'a list \<Rightarrow> 'a list \<Rightarrow> 'a list" where
  "cat_rows 0 ka kb xs ys = []"
| "cat_rows (Suc r) ka kb xs ys =
     take ka xs @ take kb ys @ cat_rows r ka kb (drop ka xs) (drop kb ys)"

definition torch_cat_last :: "'a ndarray \<Rightarrow> 'a ndarray \<Rightarrow> error + 'a ndarray" where
  "torch_cat_last a b =
     (if shape a = [] \<or> shape b = [] \<or> butlast (shape a) \<noteq> butlast (shape b)
      then Inl RuntimeError
      else Inr (NDArray (butlast (shape a) @ [last (shape a) + last (shape b)])
                  (cat_rows (prod_list (butlast (shape a))) (last (shape a)) (last (shape b))
                     (data a) (data b))))"

text \<open>
  \<^verbatim>\<open>x[:, -1]\<close> (line 84): for every index of the first axis, the last entry of the
  second axis. It needs two axes and a non-empty second one.
\<close>

definition last_position :: "'a ndarray \<Rightarrow> error + 'a ndarray" where
  "last_position x =
     (case shape x of
        n # t # rest \<Rightarrow>
          if t = 0 then Inl IndexError
          else Inr (NDArray (n # rest)
                 (concat (map (\<lambda>i. take (prod_list rest)
                                      (drop ((i * t + (t - 1)) * prod_list rest) (data x)))
                            [0..<n])))
      | _ \<Rightarrow> Inl IndexError)"

section \<open>Python objects: tensors and coroutines\<close>

text \<open>
  Calling an \<^verbatim>\<open>async def\<close> function runs none of its body: it returns a coroutine
  object, and the body runs when the coroutine is awaited. A coroutine object has no
  \<^verbatim>\<open>numpy\<close> attribute.
\<close>

datatype 'a pyobj = Tensor "'a ndarray" | Coroutine "unit \<Rightarrow> error + 'a ndarray"

fun numpy_force :: "'a pyobj \<Rightarrow> error + 'a ndarray" where
  "numpy_force (Tensor a) = Inr a"
| "numpy_force (Coroutine body) = Inl AttributeError"

fun await :: "'a pyobj \<Rightarrow> error + 'a ndarray" where
  "await (Coroutine body) = body ()"
| "await (Tensor a) = Inl TypeError"

section \<open>Sampler: \<^verbatim>\<open>sample\<close>\<close>

definition TEMP :: real where
  "TEMP = 6 / 10"

definition TOP_K :: int where
  "TOP_K = 25"

text \<open>
  Lines 83-95, an \<^verbatim>\<open>async def\<close>. The first argument is torchtune's
  \<^verbatim>\<open>sample\<close> (\<^verbatim>\<open>tt_sample\<close> in the source). Temperature and top-k reach it as
  they were passed.
\<close>

definition sample ::
  "('l ndarray \<Rightarrow> real \<Rightarrow> int \<Rightarrow> error + 't ndarray) \<Rightarrow> 'l ndarray \<Rightarrow> real \<Rightarrow> int \<Rightarrow> 't pyobj" where
  "sample tt x temp top_k =
     Coroutine (\<lambda>_. case last_position x of
                       Inl e \<Rightarrow> Inl e
                     | Inr logits \<Rightarrow> tt logits temp top_k)"

section \<open>Inference step: \<^verbatim>\<open>infer_tensor\<close>\<close>

text \<open>
  Python's \<^verbatim>\<open>not v\<close> for a value that is \<^verbatim>\<open>None\<close> or a string: true for
  \<^verbatim>\<open>None\<close> and for the empty string.
\<close>

definition py_not :: "string option \<Rightarrow> bool" where
  "py_not v = (case v of None \<Rightarrow> True | Some str \<Rightarrow> str = [])"

text \<open>Line 111.\<close>

definition record_request_id ::
  "string \<Rightarrow> ('a, 'tok, 'mdl) engine \<Rightarrow> ('a, 'tok, 'mdl) engine" where
  "record_request_id rid s =
     s\<lparr>request_id := (if py_not (request_id s) then Some rid else request_id s)\<rparr>"

text \<open>
  Lines 113-122: the local \<^verbatim>\<open>hidden_state\<close> and the update of
  \<^verbatim>\<open>self.past_tokens\<close>. An input that is neither of shape \<open>(1, 1)\<close> nor of rank 3
  falls through both branches.
\<close>

definition dispatch_input ::
  "'a ndarray \<Rightarrow> ('a, 'tok, 'mdl) engine
     \<Rightarrow> (error + 'a ndarray option) \<times> ('a, 'tok, 'mdl) engine" where
  "dispatch_input input_data s =
     (if shape input_data = [1, 1] then
        (case past_tokens s of
           Some past \<Rightarrow>
             (case torch_cat_last past input_data of
                Inl e \<Rightarrow> (Inl e, s)
              | Inr joined \<Rightarrow> (Inr None, s\<lparr>past_tokens := Some joined\<rparr>))
         | None \<Rightarrow> (Inr None, s\<lparr>past_tokens := Some input_data\<rparr>))
      else if ndim input_data = 3 then (Inr (Some input_data), s)
      else (Inr None, s))"

text \<open>
  Lines 124-136, the function submitted to the executor. The tokens argument is
  \<^verbatim>\<open>self.past_tokens if hidden_state is not None else None\<close>. On logits the source
  calls \<^verbatim>\<open>self.sample(...)\<close> without awaiting it and asks the result for
  \<^verbatim>\<open>.numpy\<close>.
\<close>

definition infer_wrapper ::
  "('a, 'tok, 'mdl, 'cfg) collaborators \<Rightarrow> 'a ndarray option \<Rightarrow> ('a, 'tok, 'mdl) engine
     \<Rightarrow> (error + 'a ndarray) \<times> ('a, 'tok, 'mdl) engine" where
  "infer_wrapper c hidden_state s =
     (case sharded_model s of
        None \<Rightarrow> (Inl AttributeError, s)
      | Some m \<Rightarrow>
          let tokens = (if hidden_state \<noteq> None then past_tokens s else None);
              s1 = s\<lparr>calls := calls s @ [Generate tokens hidden_state]\<rparr> in
          (case generate c m tokens hidden_state of
             Inl e \<Rightarrow> (Inl e, s1)
           | Inr (model_hs, model_logits) \<Rightarrow>
               (case model_hs of
                  Some hs \<Rightarrow> (numpy_force (Tensor hs), s1)
                | None \<Rightarrow>
                    (numpy_force
                       (case model_logits of
                          Some x \<Rightarrow> sample (tt_sample c) x TEMP TOP_K
                        | None \<Rightarrow> Coroutine (\<lambda>_. Inl TypeError)),
                     s1))))"

text \<open>Lines 97-138.\<close>

definition infer_tensor ::
  "('a, 'tok, 'mdl, 'cfg) collaborators \<Rightarrow> string \<Rightarrow> Shard \<Rightarrow> 'a ndarray
     \<Rightarrow> ('a, 'tok, 'mdl) engine \<Rightarrow> (error + 'a ndarray) \<times> ('a, 'tok, 'mdl) engine" where
  "infer_tensor c rid sh input_data s =
     (case ensure_shard c sh s of
        (Inl e, s1) \<Rightarrow> (Inl e, s1)
      | (Inr u, s1) \<Rightarrow>
          (case dispatch_input input_data (record_request_id rid s1) of
             (Inl e, s2) \<Rightarrow> (Inl e, s2)
           | (Inr hidden_state, s2) \<Rightarrow> infer_wrapper c hidden_state s2))"

text \<open>A run of calls, each with the collaborators as they behave during that call.\<close>

fun infer_all ::
  "(('a, 'tok, 'mdl, 'cfg) collaborators \<times> string \<times> Shard \<times> 'a ndarray) list
     \<Rightarrow> ('a, 'tok, 'mdl) engine \<Rightarrow> ('a, 'tok, 'mdl) engine" where
  "infer_all [] s = s"
| "infer_all ((c, rid, sh, x) # rest) s = infer_all rest (snd (infer_tensor c rid sh x s))"

section \<open>Stub collaborators and descriptors for concrete runs\<close>

text \<open>
  Collaborators that always succeed. The tokenizer is the path it was built from, the
  model a flag telling whether its weights are loaded. The model plays an interior
  shard: it answers every call with a hidden state.
\<close>

definition D1 :: Shard where
  "D1 = \<lparr>model_id = ''llama-3.2-1b'', start_layer = 0, end_layer = 7, n_layers = 16\<rparr>"

definition D2 :: Shard where
  "D2 = \<lparr>model_id = ''llama-3.2-1b'', start_layer = 8, end_layer = 15, n_layers = 16\<rparr>"

definition stub :: "(int, string, bool, unit) collaborators" where
  "stub =
     \<lparr>shard_downloader = (\<lambda>sh. Inr (''/models/'' @ model_id sh)),
      load_model_config = (\<lambda>p. Inr ()),
      llama3_tokenizer = (\<lambda>p. Inr p),
      resolve_tokenizer = (\<lambda>p. Inr p),
      ShardedLlamaModel = (\<lambda>cfg sh. Inr False),
      load_model_weights_torchtune = (\<lambda>p sh m. (Inr (), True)),
      generate = (\<lambda>m tokens hidden_state. Inr (Some (NDArray [1, 1, 2] [0, 0]), None)),
      tt_sample = (\<lambda>logits temp top_k. Inr (NDArray [1, 1] [0]))\<rparr>"

text \<open>The downloader raises.\<close>

definition stub_no_download :: "(int, string, bool, unit) collaborators" where
  "stub_no_download = stub\<lparr>shard_downloader := (\<lambda>sh. Inl (Raised ''ShardUnavailable''))\<rparr>"

text \<open>The model plays the terminal shard: it answers with logits over a vocabulary of 3.\<close>

definition stub_terminal :: "(int, string, bool, unit) collaborators" where
  "stub_terminal =
     stub\<lparr>generate := (\<lambda>m tokens hidden_state. Inr (None, Some (NDArray [1, 1, 3] [1, 5, 2])))\<rparr>"

text \<open>The forward pass raises.\<close>

definition stub_forward_fails :: "(int, string, bool, unit) collaborators" where
  "stub_forward_fails =
     stub\<lparr>generate := (\<lambda>m tokens hidden_state. Inl (Raised ''InferenceFailure''))\<rparr>"

text \<open>The weight loader raises, leaving the model object as it found it.\<close>

definition stub_no_weights :: "(int, string, bool, unit) collaborators" where
  "stub_no_weights =
     stub\<lparr>load_model_weights_torchtune := (\<lambda>p sh m. (Inl (Raised ''ShardLoadFailure''), m))\<rparr>"

text \<open>A descriptor of another model, and collaborators whose middle steps raise.\<close>

definition D3 :: Shard where
  "D3 = \<lparr>model_id = ''llama-3.2-3b'', start_layer = 0, end_layer = 13, n_layers = 28\<rparr>"

definition stub_no_config :: "(int, string, bool, unit) collaborators" where
  "stub_no_config = stub\<lparr>load_model_config := (\<lambda>p. Inl (Raised ''ShardLoadFailure''))\<rparr>"

definition stub_no_tokenizer :: "(int, string, bool, unit) collaborators" where
  "stub_no_tokenizer =
     stub\<lparr>llama3_tokenizer := (\<lambda>p. Inl (Raised ''ShardLoadFailure'')),
          resolve_tokenizer := (\<lambda>p. Inl (Raised ''ShardLoadFailure''))\<rparr>"

definition stub_no_model :: "(int, string, bool, unit) collaborators" where
  "stub_no_model = stub\<lparr>ShardedLlamaModel := (\<lambda>cfg sh. Inl (Raised ''ShardLoadFailure''))\<rparr>"

section \<open>Notions the properties are stated with\<close>

text \<open>The accumulated token sequence: the elements of \<open>past_tokens\<close>, none before the first token.\<close>

definition accumulated :: "('a, 'tok, 'mdl) engine \<Rightarrow> 'a list" where
  "accumulated s = (case past_tokens s of None \<Rightarrow> [] | Some a \<Rightarrow> data a)"

text \<open>
  \<open>past_tokens\<close> is absent or a tensor of one row, as it is in a fresh engine and after
  every step that starts from such an engine.
\<close>

definition tokens_wf :: "('a, 'tok, 'mdl) engine \<Rightarrow> bool" where
  "tokens_wf s = (case past_tokens s of None \<Rightarrow> True | Some a \<Rightarrow> shape a = [1, length (data a)])"

text \<open>An array has as many elements as its shape says (numpy and torch keep this).\<close>

definition well_formed :: "'a ndarray \<Rightarrow> bool" where
  "well_formed x = (length (data x) = prod_list (shape x))"

text \<open>
  Every call of a run gets past \<^verbatim>\<open>ensure_shard\<close> (line 109), that is, reaches the
  lines that look at its input.
\<close>

fun all_reach_dispatch ::
  "(('a, 'tok, 'mdl, 'cfg) collaborators \<times> string \<times> Shard \<times> 'a ndarray) list
     \<Rightarrow> ('a, 'tok, 'mdl) engine \<Rightarrow> bool" where
  "all_reach_dispatch [] s = True"
| "all_reach_dispatch ((c, rid, sh, x) # rest) s =
     (fst (ensure_shard c sh s) = Inr ()
      \<and> all_reach_dispatch rest (snd (infer_tensor c rid sh x s)))"

section \<open>The sampling primitive, and notions for the sampler's properties\<close>

text \<open>
  The logits of batch entry \<open>i\<close> at the final sequence position of a batch of shape
  (batch, sequence, vocabulary).
\<close>

definition final_logits :: "'a ndarray \<Rightarrow> nat \<Rightarrow> 'a list" where
  "final_logits x i =
     (case shape x of
        [b, s, v] \<Rightarrow> take v (drop ((i * s + (s - 1)) * v) (data x))
      | _ \<Rightarrow> [])"

text \<open>
  Modelled from the spec: torchtune's \<^verbatim>\<open>sample\<close> (\<^verbatim>\<open>tt_sample\<close>), which the source
  imports and which is not part of the repository. Section 4.5 of the spec: it "applies
  temperature scaling then restricts candidate selection to the top-K
  highest-probability vocabulary entries before drawing one token", and is
  "deterministic only if the underlying random source is seeded externally"; section 6:
  a "pure function from (logits tensor, temperature, top-K) to a token id tensor".

  Logits are exact reals. Probabilities grow with the scaled logits, so the K entries of
  highest probability are the K entries of highest scaled logit (the earlier entry first
  among equals). The random source is a number per row; the draw takes the candidate at
  that number modulo the number of candidates, so every candidate can be drawn. The
  model is meant for a positive temperature.
\<close>

definition scale_by_temperature :: "real \<Rightarrow> real list \<Rightarrow> real list" where
  "scale_by_temperature temp row = map (\<lambda>l. l / temp) row"

text \<open>
  Modelled from the spec: "the top-K highest-probability vocabulary entries", as indices
  into the row, highest first.
\<close>

definition top_k_entries :: "nat \<Rightarrow> real list \<Rightarrow> nat list" where
  "top_k_entries k row = take k (sort_key (\<lambda>i. - (row ! i)) [0..<length row])"

text \<open>
  Modelled from the spec: "drawing one token" from the candidates with the random
  source's number; with no candidate there is nothing to draw.
\<close>

definition draw_one :: "nat \<Rightarrow> nat list \<Rightarrow> error + nat" where
  "draw_one rnd candidates =
     (if candidates = [] then Inl (Raised ''SamplingFailure'')
      else Inr (candidates ! (rnd mod length candidates)))"

text \<open>Modelled from the spec: scaling, then restriction to the top K, then the draw.\<close>

definition sample_row :: "nat \<Rightarrow> real \<Rightarrow> int \<Rightarrow> real list \<Rightarrow> error + nat" where
  "sample_row rnd temp top_k row =
     draw_one rnd (top_k_entries (nat top_k) (scale_by_temperature temp row))"

text \<open>The results of the rows, or the first error among them.\<close>

fun collect :: "(error + 'a) list \<Rightarrow> error + 'a list" where
  "collect [] = Inr []"
| "collect (r # rs) =
     (case r of
        Inl e \<Rightarrow> Inl e
      | Inr v \<Rightarrow> (case collect rs of Inl e \<Rightarrow> Inl e | Inr vs \<Rightarrow> Inr (v # vs)))"

text \<open>
  Modelled from the spec: the primitive on a logits tensor, one token per row of the
  last axis; the result has one entry where the logits had a vocabulary.
\<close>

definition tt_sample_spec ::
  "(nat \<Rightarrow> nat) \<Rightarrow> real ndarray \<Rightarrow> real \<Rightarrow> int \<Rightarrow> error + nat ndarray" where
  "tt_sample_spec rnd logits temp top_k =
     (if shape logits = [] then Inl (Raised ''SamplingFailure'')
      else
        case collect
               (map (\<lambda>i. sample_row (rnd i) temp top_k
                            (take (last (shape logits)) (drop (i * last (shape logits)) (data logits))))
                  [0..<prod_list (butlast (shape logits))]) of
          Inl e \<Rightarrow> Inl e
        | Inr toks \<Rightarrow> Inr (NDArray (butlast (shape logits) @ [1]) toks))"

section \<open>Properties of \<^verbatim>\<open>ensure_shard\<close>\<close>

lemma ensure_shard_same [simp]:
  "shard s = Some sh \<Longrightarrow> ensure_shard c sh s = (Inr (), s)"
  by (simp add: ensure_shard_def)

lemma ensure_shard_stores_descriptor [simp]:
  "shard (snd (ensure_shard c sh s)) = Some sh"
  by (simp add: ensure_shard_def Let_def split: sum.splits prod.splits)

lemma ensure_shard_frame [simp]:
  "past_tokens (snd (ensure_shard c sh s)) = past_tokens s"
  "request_id (snd (ensure_shard c sh s)) = request_id s"
  by (simp_all add: ensure_shard_def Let_def split: sum.splits prod.splits)

lemma ensure_shard_calls_download:
  "shard s \<noteq> Some sh \<Longrightarrow>
     \<exists>rest. calls (snd (ensure_shard c sh s)) = calls s @ Download sh # rest"
  by (simp add: ensure_shard_def Let_def split: sum.splits prod.splits)

lemmas stubs =
  stub_def stub_no_download_def stub_terminal_def stub_forward_fails_def D1_def D2_def init_def

lemmas load_stubs =
  stub_no_config_def stub_no_tokenizer_def stub_no_model_def stub_no_weights_def D3_def

lemma ensure_shard_download_fails:
  "shard s \<noteq> Some sh \<Longrightarrow> shard_downloader c sh = Inl e \<Longrightarrow>
     ensure_shard c sh s = (Inl e, s\<lparr>shard := Some sh, calls := calls s @ [Download sh]\<rparr>)"
  by (simp add: ensure_shard_def Let_def)

lemma ensure_shard_config_fails:
  "shard s \<noteq> Some sh \<Longrightarrow> shard_downloader c sh = Inr p \<Longrightarrow>
   load_model_config c (p @ ''/config.json'') = Inl e \<Longrightarrow>
     ensure_shard c sh s =
       (Inl e, s\<lparr>shard := Some sh,
                 calls := calls s @ [Download sh, LoadConfig (p @ ''/config.json'')]\<rparr>)"
  by (simp add: ensure_shard_def Let_def)

lemma ensure_shard_tokenizer_fails:
  "shard s \<noteq> Some sh \<Longrightarrow> shard_downloader c sh = Inr p \<Longrightarrow>
   load_model_config c (p @ ''/config.json'') = Inr cfg \<Longrightarrow>
   (if use_llama_tokenizer s
    then llama3_tokenizer c (p @ ''/original/tokenizer.model'')
    else resolve_tokenizer c p) = Inl e \<Longrightarrow>
     ensure_shard c sh s =
       (Inl e, s\<lparr>shard := Some sh,
                 calls := calls s @ [Download sh, LoadConfig (p @ ''/config.json''),
                    if use_llama_tokenizer s
                    then LlamaTokenizer (p @ ''/original/tokenizer.model'')
                    else ResolveTokenizer p]\<rparr>)"
  by (simp add: ensure_shard_def Let_def split: if_splits)

lemma ensure_shard_model_fails:
  "shard s \<noteq> Some sh \<Longrightarrow> shard_downloader c sh = Inr p \<Longrightarrow>
   load_model_config c (p @ ''/config.json'') = Inr cfg \<Longrightarrow>
   (if use_llama_tokenizer s
    then llama3_tokenizer c (p @ ''/original/tokenizer.model'')
    else resolve_tokenizer c p) = Inr tok \<Longrightarrow>
   ShardedLlamaModel c cfg sh = Inl e \<Longrightarrow>
     ensure_shard c sh s =
       (Inl e, s\<lparr>shard := Some sh, tokenizer := Some tok,
                 calls := calls s @ [Download sh, LoadConfig (p @ ''/config.json''),
                    if use_llama_tokenizer s
                    then LlamaTokenizer (p @ ''/original/tokenizer.model'')
                    else ResolveTokenizer p,
                    BuildModel sh]\<rparr>)"
  by (simp add: ensure_shard_def Let_def split: if_splits)

lemma ensure_shard_weights:
  "shard s \<noteq> Some sh \<Longrightarrow> shard_downloader c sh = Inr p \<Longrightarrow>
   load_model_config c (p @ ''/config.json'') = Inr cfg \<Longrightarrow>
   (if use_llama_tokenizer s
    then llama3_tokenizer c (p @ ''/original/tokenizer.model'')
    else resolve_tokenizer c p) = Inr tok \<Longrightarrow>
   ShardedLlamaModel c cfg sh = Inr m \<Longrightarrow>
   load_model_weights_torchtune c p sh m = (r, m') \<Longrightarrow>
     ensure_shard c sh s =
       (r, s\<lparr>shard := Some sh, tokenizer := Some tok, sharded_model := Some m',
             calls := calls s @ [Download sh, LoadConfig (p @ ''/config.json''),
                if use_llama_tokenizer s
                then LlamaTokenizer (p @ ''/original/tokenizer.model'')
                else ResolveTokenizer p,
                BuildModel sh, LoadWeights p sh]\<rparr>)"
  by (simp add: ensure_shard_def Let_def split: if_splits)

lemma ensure_shard_calls_grow:
  "(calls (snd (ensure_shard c sh s)) \<noteq> calls s) = (shard s \<noteq> Some sh)"
  using ensure_shard_calls_download [of s sh c] by (cases "shard s = Some sh") auto


lemma ensure_shard_outcomes:
  "shard s \<noteq> Some sh \<Longrightarrow>
     (\<forall>e. shard_downloader c sh = Inl e \<longrightarrow>
         ensure_shard c sh s =
           (Inl e, s\<lparr>shard := Some sh, calls := calls s @ [Download sh]\<rparr>))
   \<and> (\<forall>p e. shard_downloader c sh = Inr p
            \<and> load_model_config c (p @ ''/config.json'') = Inl e \<longrightarrow>
         ensure_shard c sh s =
           (Inl e, s\<lparr>shard := Some sh,
                     calls := calls s @ [Download sh, LoadConfig (p @ ''/config.json'')]\<rparr>))
   \<and> (\<forall>p cfg e. shard_downloader c sh = Inr p
            \<and> load_model_config c (p @ ''/config.json'') = Inr cfg
            \<and> (if use_llama_tokenizer s
               then llama3_tokenizer c (p @ ''/original/tokenizer.model'')
               else resolve_tokenizer c p) = Inl e \<longrightarrow>
         ensure_shard c sh s =
           (Inl e, s\<lparr>shard := Some sh,
                     calls := calls s @ [Download sh, LoadConfig (p @ ''/config.json''),
                     if use_llama_tokenizer s
                     then LlamaTokenizer (p @ ''/original/tokenizer.model'')
                     else ResolveTokenizer p]\<rparr>))
   \<and> (\<forall>p cfg tok e. shard_downloader c sh = Inr p
            \<and> load_model_config c (p @ ''/config.json'') = Inr cfg
            \<and> (if use_llama_tokenizer s
               then llama3_tokenizer c (p @ ''/original/tokenizer.model'')
               else resolve_tokenizer c p) = Inr tok
            \<and> ShardedLlamaModel c cfg sh = Inl e \<longrightarrow>
         ensure_shard c sh s =
           (Inl e, s\<lparr>shard := Some sh, tokenizer := Some tok,
                     calls := calls s @ [Download sh, LoadConfig (p @ ''/config.json''),
                     if use_llama_tokenizer s
                     then LlamaTokenizer (p @ ''/original/tokenizer.model'')
                     else ResolveTokenizer p,
                     BuildModel sh]\<rparr>))
   \<and> (\<forall>p cfg tok m r m'. shard_downloader c sh = Inr p
            \<and> load_model_config c (p @ ''/config.json'') = Inr cfg
            \<and> (if use_llama_tokenizer s
               then llama3_tokenizer c (p @ ''/original/tokenizer.model'')
               else resolve_tokenizer c p) = Inr tok
            \<and> ShardedLlamaModel c cfg sh = Inr m
            \<and> load_model_weights_torchtune c p sh m = (r, m') \<longrightarrow>
         ensure_shard c sh s =
           (r, s\<lparr>shard := Some sh, tokenizer := Some tok, sharded_model := Some m',
                 calls := calls s @ [Download sh, LoadConfig (p @ ''/config.json''),
                     if use_llama_tokenizer s
                     then LlamaTokenizer (p @ ''/original/tokenizer.model'')
                     else ResolveTokenizer p,
                     BuildModel sh, LoadWeights p sh]\<rparr>))"
  by (simp add: ensure_shard_download_fails ensure_shard_config_fails
      ensure_shard_tokenizer_fails ensure_shard_model_fails ensure_shard_weights)

text \<open>
  Claim C5, as the source has it. The claim says that a reload occurs if and only if the
  requested descriptor differs from the currently loaded one. The source compares with
  the stored descriptor, and line 149 stores the requested descriptor before anything is
  loaded: after a call whose download failed on a fresh engine, nothing is loaded (no
  tokenizer, no model), and a second call with the same descriptor, now with
  collaborators that would all succeed, returns at once without calling any of them.
\<close>

theorem ensure_shard_no_reload_after_failed_load_counterexample:
  "fst (ensure_shard stub_no_download D1 (init False)) = Inl (Raised ''ShardUnavailable'')
   \<and> tokenizer (snd (ensure_shard stub_no_download D1 (init False))) = None
   \<and> sharded_model (snd (ensure_shard stub_no_download D1 (init False))) = None
   \<and> ensure_shard stub D1 (snd (ensure_shard stub_no_download D1 (init False)))
       = (Inr (), snd (ensure_shard stub_no_download D1 (init False)))
   \<and> calls (snd (ensure_shard stub D1 (snd (ensure_shard stub_no_download D1 (init False)))))
       = [Download D1]"
  by (simp add: stubs ensure_shard_def Let_def)

text \<open>
  Claim C5, amended. \<^verbatim>\<open>ensure_shard\<close> does reload work if and only if the requested
  descriptor differs from the stored one (stored descriptor \<open>None\<close> on the first call).
  With an equal stored descriptor it returns at once: no collaborator is called and the
  engine is unchanged. The requested descriptor is stored whatever the outcome, so a
  second call with the same descriptor does nothing, whatever the first call's outcome
  and whatever the collaborators would do now. With a different descriptor it calls the
  downloader with the requested descriptor, the config loader and the tokenizer
  constructor on the path the downloader returned, the model constructor on the config
  loaded, and the weight loader on the model constructed, each once and in this order;
  it stops at the first that raises and passes that error on; what had been built by
  then is stored, and when the weight loader returns, the tokenizer built and the model
  as the loader left it are stored and the loader's outcome is the call's.
\<close>

theorem ensure_shard_reloads_iff_stored_descriptor_differs:
  "(shard s = Some sh \<longrightarrow> ensure_shard c sh s = (Inr (), s))
   \<and> (calls (snd (ensure_shard c sh s)) \<noteq> calls s) = (shard s \<noteq> Some sh)
   \<and> ensure_shard c' sh (snd (ensure_shard c sh s)) = (Inr (), snd (ensure_shard c sh s))
   \<and> (shard s \<noteq> Some sh \<longrightarrow>
     (\<forall>e. shard_downloader c sh = Inl e \<longrightarrow>
         ensure_shard c sh s =
           (Inl e, s\<lparr>shard := Some sh, calls := calls s @ [Download sh]\<rparr>))
   \<and> (\<forall>p e. shard_downloader c sh = Inr p
            \<and> load_model_config c (p @ ''/config.json'') = Inl e \<longrightarrow>
         ensure_shard c sh s =
           (Inl e, s\<lparr>shard := Some sh,
                     calls := calls s @ [Download sh, LoadConfig (p @ ''/config.json'')]\<rparr>))
   \<and> (\<forall>p cfg e. shard_downloader c sh = Inr p
            \<and> load_model_config c (p @ ''/config.json'') = Inr cfg
            \<and> (if use_llama_tokenizer s
               then llama3_tokenizer c (p @ ''/original/tokenizer.model'')
               else resolve_tokenizer c p) = Inl e \<longrightarrow>
         ensure_shard c sh s =
           (Inl e, s\<lparr>shard := Some sh,
                     calls := calls s @ [Download sh, LoadConfig (p @ ''/config.json''),
                     if use_llama_tokenizer s
                     then LlamaTokenizer (p @ ''/original/tokenizer.model'')
                     else ResolveTokenizer p]\<rparr>))
   \<and> (\<forall>p cfg tok e. shard_downloader c sh = Inr p
            \<and> load_model_config c (p @ ''/config.json'') = Inr cfg
            \<and> (if use_llama_tokenizer s
               then llama3_tokenizer c (p @ ''/original/tokenizer.model'')
               else resolve_tokenizer c p) = Inr tok
            \<and> ShardedLlamaModel c cfg sh = Inl e \<longrightarrow>
         ensure_shard c sh s =
           (Inl e, s\<lparr>shard := Some sh, tokenizer := Some tok,
                     calls := calls s @ [Download sh, LoadConfig (p @ ''/config.json''),
                     if use_llama_tokenizer s
                     then LlamaTokenizer (p @ ''/original/tokenizer.model'')
                     else ResolveTokenizer p,
                     BuildModel sh]\<rparr>))
   \<and> (\<forall>p cfg tok m r m'. shard_downloader c sh = Inr p
            \<and> load_model_config c (p @ ''/config.json'') = Inr cfg
            \<and> (if use_llama_tokenizer s
               then llama3_tokenizer c (p @ ''/original/tokenizer.model'')
               else resolve_tokenizer c p) = Inr tok
            \<and> ShardedLlamaModel c cfg sh = Inr m
            \<and> load_model_weights_torchtune c p sh m = (r, m') \<longrightarrow>
         ensure_shard c sh s =
           (r, s\<lparr>shard := Some sh, tokenizer := Some tok, sharded_model := Some m',
                 calls := calls s @ [Download sh, LoadConfig (p @ ''/config.json''),
                     if use_llama_tokenizer s
                     then LlamaTokenizer (p @ ''/original/tokenizer.model'')
                     else ResolveTokenizer p,
                     BuildModel sh, LoadWeights p sh]\<rparr>)))"
proof -
  have same: "shard s = Some sh \<longrightarrow> ensure_shard c sh s = (Inr (), s)"
    by simp
  have grow: "(calls (snd (ensure_shard c sh s)) \<noteq> calls s) = (shard s \<noteq> Some sh)"
    by (rule ensure_shard_calls_grow)
  have twice: "ensure_shard c' sh (snd (ensure_shard c sh s)) = (Inr (), snd (ensure_shard c sh s))"
    by simp
  from same grow twice ensure_shard_outcomes [of s sh c] show ?thesis
    by blast
qed


theorem ensure_shard_reloads_iff_stored_descriptor_differs_witness:
  "shard (init False :: (int, string, bool) engine) \<noteq> Some D1
   \<and> ensure_shard stub D1 (init False)
       = (Inr (), (init False)
            \<lparr>shard := Some D1, tokenizer := Some ''/models/llama-3.2-1b'',
              sharded_model := Some True,
              calls := [Download D1, LoadConfig ''/models/llama-3.2-1b/config.json'',
                        ResolveTokenizer ''/models/llama-3.2-1b'', BuildModel D1,
                        LoadWeights ''/models/llama-3.2-1b'' D1]\<rparr>)
   \<and> ensure_shard stub_no_download D1 (snd (ensure_shard stub D1 (init False)))
       = (Inr (), snd (ensure_shard stub D1 (init False)))
   \<and> shard (snd (ensure_shard stub D1 (init False))) \<noteq> Some D3
   \<and> fst (ensure_shard stub_no_model D3 (snd (ensure_shard stub D1 (init False))))
       = Inl (Raised ''ShardLoadFailure'')
   \<and> calls (snd (ensure_shard stub_no_model D3 (snd (ensure_shard stub D1 (init False)))))
       = [Download D1, LoadConfig ''/models/llama-3.2-1b/config.json'',
          ResolveTokenizer ''/models/llama-3.2-1b'', BuildModel D1,
          LoadWeights ''/models/llama-3.2-1b'' D1,
          Download D3, LoadConfig ''/models/llama-3.2-3b/config.json'',
          ResolveTokenizer ''/models/llama-3.2-3b'', BuildModel D3]"
  using ensure_shard_reloads_iff_stored_descriptor_differs [of "init False" D1 stub stub_no_download]
    ensure_shard_reloads_iff_stored_descriptor_differs
      [of "snd (ensure_shard stub D1 (init False))" D3 stub_no_model stub]
  by (simp add: stubs load_stubs ensure_shard_def Let_def)

text \<open>
  Claim C1, as the source has it. The claim says that the stored descriptor, tokenizer
  and model are replaced only after every load step has succeeded. The source assigns
  as it goes: a downloader that raises on a fresh engine leaves the stored descriptor
  set to the requested one, not \<open>None\<close>.
\<close>

theorem ensure_shard_download_failure_counterexample:
  "fst (ensure_shard stub_no_download D1 (init False)) = Inl (Raised ''ShardUnavailable'')
   \<and> shard (init False :: (int, string, bool) engine) = None
   \<and> shard (snd (ensure_shard stub_no_download D1 (init False))) = Some D1"
  by (simp add: stubs ensure_shard_def Let_def)

text \<open>
  Claim C1, amended. A call with a descriptor different from the stored one stores the
  requested descriptor before any load step and keeps it stored whatever the outcome; it
  never touches the request identifier or the accumulated tokens. The tokenizer is
  stored as soon as it is built and the model as soon as it is constructed, before its
  weights are loaded. Step by step: if the downloader, the config loader or the
  tokenizer constructor raises, the error is passed on and tokenizer and model are the
  previous ones; if the model constructor raises, the error is passed on, the new
  tokenizer is stored and the model is the previous one; once the model is constructed,
  the new tokenizer and the model as the weight loader left it are stored and the weight
  loader's outcome, error or not, is the call's. Apart from descriptor, tokenizer, model
  and the list of calls made, the engine is as before. If the call returns normally,
  every step succeeded.
\<close>

theorem ensure_shard_stores_as_it_goes:
  "shard s \<noteq> Some sh \<Longrightarrow>
     shard (snd (ensure_shard c sh s)) = Some sh
   \<and> request_id (snd (ensure_shard c sh s)) = request_id s
   \<and> past_tokens (snd (ensure_shard c sh s)) = past_tokens s
   \<and> (\<forall>e. shard_downloader c sh = Inl e \<longrightarrow>
         ensure_shard c sh s =
           (Inl e, s\<lparr>shard := Some sh, calls := calls s @ [Download sh]\<rparr>))
   \<and> (\<forall>p e. shard_downloader c sh = Inr p
            \<and> load_model_config c (p @ ''/config.json'') = Inl e \<longrightarrow>
         ensure_shard c sh s =
           (Inl e, s\<lparr>shard := Some sh,
                     calls := calls s @ [Download sh, LoadConfig (p @ ''/config.json'')]\<rparr>))
   \<and> (\<forall>p cfg e. shard_downloader c sh = Inr p
            \<and> load_model_config c (p @ ''/config.json'') = Inr cfg
            \<and> (if use_llama_tokenizer s
               then llama3_tokenizer c (p @ ''/original/tokenizer.model'')
               else resolve_tokenizer c p) = Inl e \<longrightarrow>
         ensure_shard c sh s =
           (Inl e, s\<lparr>shard := Some sh,
                     calls := calls s @ [Download sh, LoadConfig (p @ ''/config.json''),
                     if use_llama_tokenizer s
                     then LlamaTokenizer (p @ ''/original/tokenizer.model'')
                     else ResolveTokenizer p]\<rparr>))
   \<and> (\<forall>p cfg tok e. shard_downloader c sh = Inr p
            \<and> load_model_config c (p @ ''/config.json'') = Inr cfg
            \<and> (if use_llama_tokenizer s
               then llama3_tokenizer c (p @ ''/original/tokenizer.model'')
               else resolve_tokenizer c p) = Inr tok
            \<and> ShardedLlamaModel c cfg sh = Inl e \<longrightarrow>
         ensure_shard c sh s =
           (Inl e, s\<lparr>shard := Some sh, tokenizer := Some tok,
                     calls := calls s @ [Download sh, LoadConfig (p @ ''/config.json''),
                     if use_llama_tokenizer s
                     then LlamaTokenizer (p @ ''/original/tokenizer.model'')
                     else ResolveTokenizer p,
                     BuildModel sh]\<rparr>))
   \<and> (\<forall>p cfg tok m r m'. shard_downloader c sh = Inr p
            \<and> load_model_config c (p @ ''/config.json'') = Inr cfg
            \<and> (if use_llama_tokenizer s
               then llama3_tokenizer c (p @ ''/original/tokenizer.model'')
               else resolve_tokenizer c p) = Inr tok
            \<and> ShardedLlamaModel c cfg sh = Inr m
            \<and> load_model_weights_torchtune c p sh m = (r, m') \<longrightarrow>
         ensure_shard c sh s =
           (r, s\<lparr>shard := Some sh, tokenizer := Some tok, sharded_model := Some m',
                 calls := calls s @ [Download sh, LoadConfig (p @ ''/config.json''),
                     if use_llama_tokenizer s
                     then LlamaTokenizer (p @ ''/original/tokenizer.model'')
                     else ResolveTokenizer p,
                     BuildModel sh, LoadWeights p sh]\<rparr>))
   \<and> (fst (ensure_shard c sh s) = Inr () \<longrightarrow>
        (\<exists>p cfg tok m m'.
           shard_downloader c sh = Inr p \<and> load_model_config c (p @ ''/config.json'') = Inr cfg
         \<and> (if use_llama_tokenizer s
              then llama3_tokenizer c (p @ ''/original/tokenizer.model'')
              else resolve_tokenizer c p) = Inr tok
         \<and> ShardedLlamaModel c cfg sh = Inr m
         \<and> load_model_weights_torchtune c p sh m = (Inr (), m')
         \<and> tokenizer (snd (ensure_shard c sh s)) = Some tok
         \<and> sharded_model (snd (ensure_shard c sh s)) = Some m'))"
proof -
  assume d: "shard s \<noteq> Some sh"
  have ok: "fst (ensure_shard c sh s) = Inr () \<longrightarrow>
        (\<exists>p cfg tok m m'.
           shard_downloader c sh = Inr p \<and> load_model_config c (p @ ''/config.json'') = Inr cfg
         \<and> (if use_llama_tokenizer s
              then llama3_tokenizer c (p @ ''/original/tokenizer.model'')
              else resolve_tokenizer c p) = Inr tok
         \<and> ShardedLlamaModel c cfg sh = Inr m
         \<and> load_model_weights_torchtune c p sh m = (Inr (), m')
         \<and> tokenizer (snd (ensure_shard c sh s)) = Some tok
         \<and> sharded_model (snd (ensure_shard c sh s)) = Some m')"
    using d by (auto simp add: ensure_shard_def Let_def split: sum.splits prod.splits if_splits)
  have stored: "shard (snd (ensure_shard c sh s)) = Some sh"
    and rid: "request_id (snd (ensure_shard c sh s)) = request_id s"
    and toks: "past_tokens (snd (ensure_shard c sh s)) = past_tokens s"
    by simp_all
  from stored rid toks ensure_shard_outcomes [OF d, of c] ok show ?thesis
    by blast
qed


theorem ensure_shard_stores_as_it_goes_witness:
  "shard (snd (ensure_shard stub D1 (init False))) \<noteq> Some D3
   \<and> tokenizer (snd (ensure_shard stub D1 (init False))) = Some ''/models/llama-3.2-1b''
   \<and> sharded_model (snd (ensure_shard stub D1 (init False))) = Some True
   \<and> ensure_shard stub_no_download D3 (snd (ensure_shard stub D1 (init False)))
       = (Inl (Raised ''ShardUnavailable''),
          (snd (ensure_shard stub D1 (init False)))
            \<lparr>shard := Some D3,
              calls := calls (snd (ensure_shard stub D1 (init False))) @ [Download D3]\<rparr>)
   \<and> tokenizer (snd (ensure_shard stub_no_config D3 (snd (ensure_shard stub D1 (init False)))))
       = Some ''/models/llama-3.2-1b''
   \<and> tokenizer (snd (ensure_shard stub_no_tokenizer D3 (snd (ensure_shard stub D1 (init False)))))
       = Some ''/models/llama-3.2-1b''
   \<and> tokenizer (snd (ensure_shard stub_no_model D3 (snd (ensure_shard stub D1 (init False)))))
       = Some ''/models/llama-3.2-3b''
   \<and> sharded_model (snd (ensure_shard stub_no_model D3 (snd (ensure_shard stub D1 (init False)))))
       = Some True
   \<and> fst (ensure_shard stub_no_weights D3 (snd (ensure_shard stub D1 (init False))))
       = Inl (Raised ''ShardLoadFailure'')
   \<and> tokenizer (snd (ensure_shard stub_no_weights D3 (snd (ensure_shard stub D1 (init False)))))
       = Some ''/models/llama-3.2-3b''
   \<and> sharded_model (snd (ensure_shard stub_no_weights D3 (snd (ensure_shard stub D1 (init False)))))
       = Some False
   \<and> fst (ensure_shard stub D3 (snd (ensure_shard stub D1 (init False)))) = Inr ()
   \<and> shard (snd (ensure_shard stub_no_config D3 (snd (ensure_shard stub D1 (init False)))))
       = Some D3"
  using ensure_shard_stores_as_it_goes
      [of "snd (ensure_shard stub D1 (init False))" D3 stub_no_download]
    ensure_shard_stores_as_it_goes [of "snd (ensure_shard stub D1 (init False))" D3 stub_no_config]
    ensure_shard_stores_as_it_goes
      [of "snd (ensure_shard stub D1 (init False))" D3 stub_no_tokenizer]
    ensure_shard_stores_as_it_goes [of "snd (ensure_shard stub D1 (init False))" D3 stub_no_model]
    ensure_shard_stores_as_it_goes [of "snd (ensure_shard stub D1 (init False))" D3 stub_no_weights]
    ensure_shard_stores_as_it_goes [of "snd (ensure_shard stub D1 (init False))" D3 stub]
  by (simp add: stubs load_stubs ensure_shard_def Let_def)

section \<open>What each part of \<^verbatim>\<open>infer_tensor\<close> leaves alone\<close>

lemma infer_wrapper_frame [simp]:
  "past_tokens (snd (infer_wrapper c h s)) = past_tokens s"
  "request_id (snd (infer_wrapper c h s)) = request_id s"
  by (simp_all add: infer_wrapper_def Let_def split: sum.splits prod.splits option.splits)

lemma record_request_id_frame [simp]:
  "past_tokens (record_request_id rid s) = past_tokens s"
  "calls (record_request_id rid s) = calls s"
  "sharded_model (record_request_id rid s) = sharded_model s"
  by (simp_all add: record_request_id_def)

lemma dispatch_input_frame [simp]:
  "request_id (snd (dispatch_input x s)) = request_id s"
  "calls (snd (dispatch_input x s)) = calls s"
  "sharded_model (snd (dispatch_input x s)) = sharded_model s"
  by (simp_all add: dispatch_input_def split: sum.splits option.splits)

lemma accumulated_frame [simp]:
  "accumulated (snd (ensure_shard c sh s)) = accumulated s"
  "accumulated (snd (infer_wrapper c h s)) = accumulated s"
  "accumulated (record_request_id rid s) = accumulated s"
  by (simp_all add: accumulated_def)

lemma tokens_wf_frame [simp]:
  "tokens_wf (snd (ensure_shard c sh s)) = tokens_wf s"
  "tokens_wf (snd (infer_wrapper c h s)) = tokens_wf s"
  "tokens_wf (record_request_id rid s) = tokens_wf s"
  by (simp_all add: tokens_wf_def)

section \<open>The three ways through lines 113-122\<close>

lemma torch_cat_last_row:
  "shape p = [1, length (data p)] \<Longrightarrow> shape x = [1, 1] \<Longrightarrow> length (data x) = 1 \<Longrightarrow>
     torch_cat_last p x = Inr (NDArray [1, Suc (length (data p))] (data p @ data x))"
  by (simp add: torch_cat_last_def)

lemma dispatch_input_token:
  "tokens_wf s \<Longrightarrow> shape x = [1, 1] \<Longrightarrow> well_formed x \<Longrightarrow>
     dispatch_input x s =
       (Inr None, s\<lparr>past_tokens := Some (NDArray [1, Suc (length (accumulated s))]
                                            (accumulated s @ data x))\<rparr>)"
  by (cases x)
    (auto simp add: dispatch_input_def tokens_wf_def accumulated_def well_formed_def
      torch_cat_last_row split: option.splits)

lemma dispatch_input_other:
  "shape x \<noteq> [1, 1] \<Longrightarrow>
     dispatch_input x s = (Inr (if ndim x = 3 then Some x else None), s)"
  by (simp add: dispatch_input_def)

lemma infer_tensor_ensure_fails:
  "fst (ensure_shard c sh s) = Inl e \<Longrightarrow>
     infer_tensor c rid sh x s = (Inl e, snd (ensure_shard c sh s))"
  by (cases "ensure_shard c sh s") (simp add: infer_tensor_def)

lemma infer_tensor_token:
  assumes "fst (ensure_shard c sh s) = Inr ()" and "tokens_wf s"
    and "shape x = [1, 1]" and "well_formed x"
  shows "infer_tensor c rid sh x s =
       infer_wrapper c None
         ((record_request_id rid (snd (ensure_shard c sh s)))
            \<lparr>past_tokens := Some (NDArray [1, Suc (length (accumulated s))]
                                    (accumulated s @ data x))\<rparr>)"
proof -
  obtain s1 where e: "ensure_shard c sh s = (Inr (), s1)"
    using assms(1) by (cases "ensure_shard c sh s") auto
  have s1: "s1 = snd (ensure_shard c sh s)"
    by (simp add: e)
  have "tokens_wf (record_request_id rid s1)"
    and "accumulated (record_request_id rid s1) = accumulated s"
    unfolding s1 using assms(2) by simp_all
  then have "dispatch_input x (record_request_id rid s1) =
      (Inr None, (record_request_id rid s1)
         \<lparr>past_tokens := Some (NDArray [1, Suc (length (accumulated s))]
                                 (accumulated s @ data x))\<rparr>)"
    using dispatch_input_token [of "record_request_id rid s1" x] assms(3,4) by simp
  then show ?thesis
    by (simp add: infer_tensor_def e)
qed

lemma infer_tensor_other:
  "fst (ensure_shard c sh s) = Inr () \<Longrightarrow> shape x \<noteq> [1, 1] \<Longrightarrow>
     infer_tensor c rid sh x s =
       infer_wrapper c (if ndim x = 3 then Some x else None)
         (record_request_id rid (snd (ensure_shard c sh s)))"
  by (cases "ensure_shard c sh s") (simp add: infer_tensor_def dispatch_input_other)

lemma accumulated_update [simp]:
  "accumulated (s\<lparr>past_tokens := Some a\<rparr>) = data a"
  "tokens_wf (s\<lparr>past_tokens := Some a\<rparr>) = (shape a = [1, length (data a)])"
  by (simp_all add: accumulated_def tokens_wf_def)

lemma infer_wrapper_calls:
  "sharded_model s = Some m \<Longrightarrow>
     calls (snd (infer_wrapper c h s)) =
       calls s @ [Generate (if h \<noteq> None then past_tokens s else None) h]"
  by (simp add: infer_wrapper_def Let_def split: sum.splits prod.splits option.splits)

section \<open>Claims about the inference step\<close>

text \<open>
  Claim C10. In a call whose input has shape \<open>(1, 1)\<close>, the token is appended to the
  accumulated sequence before the forward-pass work is handed over: the engine on which
  the submitted function runs already holds the sequence with the new token at its end.
  Nothing takes it back, so when the call ends in an error the accumulated sequence
  still has the token. (The call is one that got past \<^verbatim>\<open>ensure_shard\<close>, on an
  engine whose accumulated tokens form one row.)
\<close>

theorem token_appended_before_forward_pass:
  assumes "fst (ensure_shard c sh s) = Inr ()" and "tokens_wf s"
    and "shape x = [1, 1]" and "well_formed x"
  shows "(\<exists>s2. infer_tensor c rid sh x s = infer_wrapper c None s2
               \<and> accumulated s2 = accumulated s @ data x)
       \<and> (\<forall>e. fst (infer_tensor c rid sh x s) = Inl e \<longrightarrow>
               accumulated (snd (infer_tensor c rid sh x s)) = accumulated s @ data x)"
proof -
  let ?s2 = "(record_request_id rid (snd (ensure_shard c sh s)))
            \<lparr>past_tokens := Some (NDArray [1, Suc (length (accumulated s))]
                                    (accumulated s @ data x))\<rparr>"
  have run: "infer_tensor c rid sh x s = infer_wrapper c None ?s2"
    using assms by (rule infer_tensor_token)
  have acc: "accumulated ?s2 = accumulated s @ data x"
    by simp
  from run acc show ?thesis
    by (metis accumulated_frame(2))
qed

theorem token_appended_before_forward_pass_witness:
  "fst (ensure_shard stub_forward_fails D1 (init False)) = Inr ()
   \<and> tokens_wf (init False :: (int, string, bool) engine)
   \<and> well_formed (NDArray [1, 1] [7 :: int])
   \<and> fst (infer_tensor stub_forward_fails ''r'' D1 (NDArray [1, 1] [7]) (init False))
     = Inl (Raised ''InferenceFailure'')
   \<and> accumulated (snd (infer_tensor stub_forward_fails ''r'' D1 (NDArray [1, 1] [7]) (init False)))
     = [7]"
  using token_appended_before_forward_pass
    [of stub_forward_fails D1 "init False" "NDArray [1, 1] [7]" "''r''"]
  by (simp add: stubs ensure_shard_def Let_def tokens_wf_def well_formed_def accumulated_def
      infer_tensor_def dispatch_input_def record_request_id_def infer_wrapper_def py_not_def)

section \<open>Token accumulation over a run of calls\<close>

lemma infer_tensor_step:
  assumes "tokens_wf s" and "shape x = [1, 1] \<longrightarrow> well_formed x"
  shows "tokens_wf (snd (infer_tensor c rid sh x s))
       \<and> accumulated (snd (infer_tensor c rid sh x s)) =
           (if fst (ensure_shard c sh s) = Inr () \<and> shape x = [1, 1]
            then accumulated s @ data x else accumulated s)"
proof (cases "fst (ensure_shard c sh s)")
  case (Inl e)
  then show ?thesis
    using assms(1) by (simp add: infer_tensor_ensure_fails)
next
  case (Inr u)
  then have ok: "fst (ensure_shard c sh s) = Inr ()"
    by simp
  show ?thesis
  proof (cases "shape x = [1, 1]")
    case True
    with assms have wf: "well_formed x"
      by simp
    then have "length (data x) = 1"
      using True by (simp add: well_formed_def)
    then show ?thesis
      using ok True by (simp add: infer_tensor_token [OF ok assms(1) True wf])
  next
    case False
    then show ?thesis
      using ok assms(1) by (simp add: infer_tensor_other)
  qed
qed

lemma infer_all_tokens:
  "tokens_wf s \<Longrightarrow> \<forall>(c, rid, sh, x) \<in> set cs. shape x = [1, 1] \<and> well_formed x \<Longrightarrow>
   all_reach_dispatch cs s \<Longrightarrow>
     tokens_wf (infer_all cs s)
     \<and> accumulated (infer_all cs s) = accumulated s @ concat (map (\<lambda>(c, rid, sh, x). data x) cs)"
proof (induction cs arbitrary: s)
  case Nil
  then show ?case by simp
next
  case (Cons a cs)
  obtain c rid sh x where a: "a = (c, rid, sh, x)"
    by (cases a) auto
  from Cons.prems a have x: "shape x = [1, 1]" "well_formed x"
    and ok: "fst (ensure_shard c sh s) = Inr ()"
    and rest: "all_reach_dispatch cs (snd (infer_tensor c rid sh x s))"
    and toks: "\<forall>(c, rid, sh, x) \<in> set cs. shape x = [1, 1] \<and> well_formed x"
    by auto
  from infer_tensor_step [of s x c rid sh] Cons.prems(1) x ok
  have step: "tokens_wf (snd (infer_tensor c rid sh x s))"
    "accumulated (snd (infer_tensor c rid sh x s)) = accumulated s @ data x"
    by simp_all
  from Cons.IH [OF step(1) toks rest] step(2) a show ?case
    by simp
qed

lemma all_reach_dispatch_take:
  "all_reach_dispatch cs s \<Longrightarrow> all_reach_dispatch (take k cs) s"
proof (induction cs arbitrary: s k)
  case Nil
  then show ?case by simp
next
  case (Cons a cs)
  then show ?case
    by (cases k; cases a) auto
qed

lemma infer_all_never_truncates:
  "tokens_wf s \<Longrightarrow> \<forall>(c, rid, sh, x) \<in> set ds. shape x = [1, 1] \<longrightarrow> well_formed x \<Longrightarrow>
     tokens_wf (infer_all ds s) \<and> prefix (accumulated s) (accumulated (infer_all ds s))"
proof (induction ds arbitrary: s)
  case Nil
  then show ?case by simp
next
  case (Cons a ds)
  obtain c rid sh x where a: "a = (c, rid, sh, x)"
    by (cases a) auto
  from Cons.prems a have x: "shape x = [1, 1] \<longrightarrow> well_formed x"
    and rest: "\<forall>(c, rid, sh, x) \<in> set ds. shape x = [1, 1] \<longrightarrow> well_formed x"
    by auto
  from infer_tensor_step [OF Cons.prems(1) x, of c rid sh]
  have step: "tokens_wf (snd (infer_tensor c rid sh x s))"
    "prefix (accumulated s) (accumulated (snd (infer_tensor c rid sh x s)))"
    by (simp_all split: if_splits)
  from Cons.IH [OF step(1) rest] step(2) a show ?case
    by (auto intro: prefix_order.trans)
qed

lemma single_token_runs_length:
  "\<forall>(c, rid, sh, x) \<in> set cs. shape x = [1, 1] \<and> well_formed x \<Longrightarrow>
     length (concat (map (\<lambda>(c, rid, sh, x). data x) cs)) = length cs"
  by (induction cs) (auto simp add: well_formed_def)

text \<open>
  Claim C4. Start from an engine whose accumulated tokens form one row (a fresh engine
  has none) and make N calls, each with one token of shape \<open>(1, 1)\<close> and each getting
  past \<^verbatim>\<open>ensure_shard\<close>. Then the accumulated sequence has grown by N; after each
  step it is the sequence at the start followed by the tokens given so far, in the
  order given; and whatever calls follow, with whatever inputs and outcomes, the
  sequence reached is a prefix of the later one: it is appended to, never cut.
\<close>

theorem token_accumulation:
  fixes s :: "('a, 'tok, 'mdl) engine"
    and cs :: "(('a, 'tok, 'mdl, 'cfg) collaborators \<times> string \<times> Shard \<times> 'a ndarray) list"
  assumes "tokens_wf s"
    and "\<forall>(c, rid, sh, x) \<in> set cs. shape x = [1, 1] \<and> well_formed x"
    and "all_reach_dispatch cs s"
  shows "length (accumulated (infer_all cs s)) = length (accumulated s) + length cs
       \<and> (\<forall>k \<le> length cs.
            accumulated (infer_all (take k cs) s) =
              accumulated s @ concat (map (\<lambda>(c, rid, sh, x). data x) (take k cs)))
       \<and> (\<forall>ds :: (('a, 'tok, 'mdl, 'cfg) collaborators \<times> string \<times> Shard \<times> 'a ndarray) list.
            (\<forall>(c, rid, sh, x) \<in> set ds. shape x = [1, 1] \<longrightarrow> well_formed x) \<longrightarrow>
            prefix (accumulated (infer_all cs s)) (accumulated (infer_all ds (infer_all cs s))))"
proof (intro conjI allI impI)
  show "length (accumulated (infer_all cs s)) = length (accumulated s) + length cs"
    using infer_all_tokens [OF assms] single_token_runs_length [OF assms(2)] by simp
next
  fix k
  assume "k \<le> length cs"
  have "\<forall>(c, rid, sh, x) \<in> set (take k cs). shape x = [1, 1] \<and> well_formed x"
    using assms(2) by (auto dest: in_set_takeD)
  then show "accumulated (infer_all (take k cs) s) =
      accumulated s @ concat (map (\<lambda>(c, rid, sh, x). data x) (take k cs))"
    using infer_all_tokens [OF assms(1) _ all_reach_dispatch_take [OF assms(3)], of k] by simp
next
  fix ds :: "(('a, 'tok, 'mdl, 'cfg) collaborators \<times> string \<times> Shard \<times> 'a ndarray) list"
  assume "\<forall>(c, rid, sh, x) \<in> set ds. shape x = [1, 1] \<longrightarrow> well_formed x"
  then show "prefix (accumulated (infer_all cs s)) (accumulated (infer_all ds (infer_all cs s)))"
    using infer_all_never_truncates [of "infer_all cs s" ds] infer_all_tokens [OF assms] by simp
qed


theorem token_accumulation_witness:
  "tokens_wf (init False :: (int, string, bool) engine)
   \<and> all_reach_dispatch
        [(stub, ''r'', D1, NDArray [1, 1] [7]), (stub_forward_fails, ''r'', D1, NDArray [1, 1] [8]),
         (stub_terminal, ''r'', D2, NDArray [1, 1] [9])] (init False)
   \<and> accumulated (infer_all
        [(stub, ''r'', D1, NDArray [1, 1] [7]), (stub_forward_fails, ''r'', D1, NDArray [1, 1] [8]),
         (stub_terminal, ''r'', D2, NDArray [1, 1] [9])] (init False)) = [7, 8, 9]"
  using token_accumulation
    [of "init False"
        "[(stub, ''r'', D1, NDArray [1, 1] [7]), (stub_forward_fails, ''r'', D1, NDArray [1, 1] [8]),
          (stub_terminal, ''r'', D2, NDArray [1, 1] [9])]"]
  by (simp add: stubs ensure_shard_def Let_def tokens_wf_def well_formed_def accumulated_def
      infer_tensor_def dispatch_input_def record_request_id_def infer_wrapper_def py_not_def
      torch_cat_last_def)

section \<open>Which path an input takes, and what the forward pass is given\<close>

lemma infer_wrapper_result:
  "sharded_model s = Some m \<Longrightarrow>
   generate c m (if h \<noteq> None then past_tokens s else None) h = Inl e \<Longrightarrow>
     fst (infer_wrapper c h s) = Inl e"
  "sharded_model s = Some m \<Longrightarrow>
   generate c m (if h \<noteq> None then past_tokens s else None) h = Inr (Some hs, lg) \<Longrightarrow>
     fst (infer_wrapper c h s) = Inr hs"
  by (simp_all add: infer_wrapper_def Let_def)

text \<open>
  Claim C2, what the source does. The claim says that a \<open>(1, 1)\<close> input makes the
  forward pass run on the full accumulated token sequence and that a rank-3 input makes
  it run on the hidden state with no token history. Line 126 passes
  \<^verbatim>\<open>self.past_tokens if hidden_state is not None else None\<close>, the test the other way
  round: after a \<open>(1, 1)\<close> input the model is called with neither tokens nor hidden
  state, although the token has been appended; after a rank-3 input it is called with
  the accumulated tokens and the hidden state. (For a call that got past
  \<^verbatim>\<open>ensure_shard\<close> with a model in place.)
\<close>

theorem forward_pass_arguments:
  assumes "fst (ensure_shard c sh s) = Inr ()"
    and "sharded_model (snd (ensure_shard c sh s)) = Some m"
    and "tokens_wf s"
  shows "(shape x = [1, 1] \<and> well_formed x \<longrightarrow>
            calls (snd (infer_tensor c rid sh x s)) =
              calls (snd (ensure_shard c sh s)) @ [Generate None None]
          \<and> accumulated (snd (infer_tensor c rid sh x s)) = accumulated s @ data x)
       \<and> (ndim x = 3 \<longrightarrow>
            calls (snd (infer_tensor c rid sh x s)) =
              calls (snd (ensure_shard c sh s)) @ [Generate (past_tokens s) (Some x)])"
proof (intro conjI impI)
  assume x: "shape x = [1, 1] \<and> well_formed x"
  then show "calls (snd (infer_tensor c rid sh x s)) =
              calls (snd (ensure_shard c sh s)) @ [Generate None None]"
    using assms by (simp add: infer_tensor_token infer_wrapper_calls)
  from x show "accumulated (snd (infer_tensor c rid sh x s)) = accumulated s @ data x"
    using assms by (simp add: infer_tensor_token)
next
  assume "ndim x = 3"
  then have "shape x \<noteq> [1, 1]"
    by (auto simp add: ndim_def)
  then show "calls (snd (infer_tensor c rid sh x s)) =
              calls (snd (ensure_shard c sh s)) @ [Generate (past_tokens s) (Some x)]"
    using assms \<open>ndim x = 3\<close> by (simp add: infer_tensor_other infer_wrapper_calls)
qed

theorem forward_pass_arguments_witness:
  "fst (ensure_shard stub D1 (init False)) = Inr ()
   \<and> accumulated (snd (infer_tensor stub ''r'' D1 (NDArray [1, 1] [7]) (init False))) = [7]
   \<and> last (calls (snd (infer_tensor stub ''r'' D1 (NDArray [1, 1] [7]) (init False))))
       = Generate None None
   \<and> last (calls (snd (infer_tensor stub ''r'' D1 (NDArray [1, 1, 2] [3, 4])
              (snd (infer_tensor stub ''r'' D1 (NDArray [1, 1] [7]) (init False))))))
       = Generate (Some (NDArray [1, 1] [7])) (Some (NDArray [1, 1, 2] [3, 4]))"
  using forward_pass_arguments [of stub D1 "init False" True "NDArray [1, 1] [7]" "''r''"]
    forward_pass_arguments
      [of stub D1 "snd (infer_tensor stub ''r'' D1 (NDArray [1, 1] [7]) (init False))" True
          "NDArray [1, 1, 2] [3, 4]" "''r''"]
  by (simp add: stubs ensure_shard_def Let_def tokens_wf_def well_formed_def accumulated_def ndim_def
      infer_tensor_def dispatch_input_def record_request_id_def infer_wrapper_def py_not_def
      torch_cat_last_def sample_def)

text \<open>
  Claim C3, what the source does. The claim says that when the model returns logits the
  sampler runs inside the submitted function and the call returns the sampled token.
  \<^verbatim>\<open>sample\<close> is an \<^verbatim>\<open>async def\<close>; line 135 calls it without awaiting it, inside a
  plain function, and line 136 asks the coroutine object for \<^verbatim>\<open>.numpy\<close>. So with a
  model that answers with logits and no hidden state, every call that gets past
  \<^verbatim>\<open>ensure_shard\<close> ends in AttributeError; no token is returned.
\<close>

theorem logits_end_in_attribute_error:
  assumes "fst (ensure_shard c sh s) = Inr ()" and "tokens_wf s" and "well_formed x"
    and "\<And>m t h. \<exists>lg. generate c m t h = Inr (None, lg)"
  shows "fst (infer_tensor c rid sh x s) = Inl AttributeError"
proof -
  have wrap: "fst (infer_wrapper c h s') = Inl AttributeError" for h s'
  proof (cases "sharded_model s'")
    case None
    then show ?thesis by (simp add: infer_wrapper_def)
  next
    case (Some m)
    obtain lg where "generate c m (if h \<noteq> None then past_tokens s' else None) h = Inr (None, lg)"
      using assms(4) by blast
    with Some show ?thesis
      by (simp add: infer_wrapper_def Let_def sample_def split: option.splits)
  qed
  show ?thesis
  proof (cases "shape x = [1, 1]")
    case True
    then show ?thesis
      using assms(1-3) by (simp add: infer_tensor_token wrap)
  next
    case False
    then show ?thesis
      using assms(1) by (simp add: infer_tensor_other wrap)
  qed
qed

theorem logits_end_in_attribute_error_witness:
  "fst (ensure_shard stub_terminal D1 (init False)) = Inr ()
   \<and> generate stub_terminal True None None = Inr (None, Some (NDArray [1, 1, 3] [1, 5, 2]))
   \<and> fst (infer_tensor stub_terminal ''r'' D1 (NDArray [1, 1] [7]) (init False))
       = Inl AttributeError"
  using logits_end_in_attribute_error
    [of stub_terminal D1 "init False" "NDArray [1, 1] [7]" "''r''"]
  by (simp add: stubs ensure_shard_def Let_def tokens_wf_def well_formed_def accumulated_def ndim_def
      infer_tensor_def dispatch_input_def record_request_id_def infer_wrapper_def py_not_def
      torch_cat_last_def sample_def)

text \<open>
  Claim C6, as the source has it. The claim says that an input that is neither of shape
  \<open>(1, 1)\<close> nor of rank 3 is rejected with an error. Lines 114-122 have no third
  branch: with a model that answers the call, an input of shape \<open>(2, 2)\<close> gets a result.
\<close>

theorem other_shape_not_rejected_counterexample:
  "shape (NDArray [2, 2] [7, 8, 9, 10 :: int]) \<noteq> [1, 1]
   \<and> ndim (NDArray [2, 2] [7, 8, 9, 10 :: int]) \<noteq> 3
   \<and> fst (infer_tensor stub ''r'' D1 (NDArray [2, 2] [7, 8, 9, 10]) (init False))
       = Inr (NDArray [1, 1, 2] [0, 0])"
  by (simp add: stubs ensure_shard_def Let_def ndim_def
      infer_tensor_def dispatch_input_def record_request_id_def infer_wrapper_def py_not_def)


text \<open>
  Claim C6, amended. In a call that got past \<^verbatim>\<open>ensure_shard\<close> with a model in
  place, on an engine whose accumulated tokens form one row: a well-formed input of
  shape \<open>(1, 1)\<close> takes the token path (it is appended to the accumulated tokens and the
  forward pass gets no hidden state); a rank-3 input takes the hidden-state path (the
  accumulated tokens stay as they are and the forward pass gets the input as hidden
  state); an input of any other shape is not rejected: the accumulated tokens stay as
  they are, the forward pass is invoked without a hidden state, the call raises the
  model's error when the model raises, and it returns the model's hidden state when the
  model returns one.
\<close>

theorem input_shape_decides_the_path:
  assumes "fst (ensure_shard c sh s) = Inr ()"
    and "sharded_model (snd (ensure_shard c sh s)) = Some m"
    and "tokens_wf s"
  shows "(shape x = [1, 1] \<and> well_formed x \<longrightarrow>
            accumulated (snd (infer_tensor c rid sh x s)) = accumulated s @ data x
          \<and> (\<exists>t. calls (snd (infer_tensor c rid sh x s)) =
                    calls (snd (ensure_shard c sh s)) @ [Generate t None]))
       \<and> (ndim x = 3 \<longrightarrow>
            accumulated (snd (infer_tensor c rid sh x s)) = accumulated s
          \<and> (\<exists>t. calls (snd (infer_tensor c rid sh x s)) =
                    calls (snd (ensure_shard c sh s)) @ [Generate t (Some x)]))
       \<and> (shape x \<noteq> [1, 1] \<and> ndim x \<noteq> 3 \<longrightarrow>
            accumulated (snd (infer_tensor c rid sh x s)) = accumulated s
          \<and> (\<exists>t. calls (snd (infer_tensor c rid sh x s)) =
                    calls (snd (ensure_shard c sh s)) @ [Generate t None]
                \<and> (\<forall>e. generate c m t None = Inl e \<longrightarrow>
                       fst (infer_tensor c rid sh x s) = Inl e)
                \<and> (\<forall>hs lg. generate c m t None = Inr (Some hs, lg) \<longrightarrow>
                       fst (infer_tensor c rid sh x s) = Inr hs)))"
proof (intro conjI impI)
  assume x: "shape x = [1, 1] \<and> well_formed x"
  then show "accumulated (snd (infer_tensor c rid sh x s)) = accumulated s @ data x"
    using assms by (simp add: infer_tensor_token)
  from x show "\<exists>t. calls (snd (infer_tensor c rid sh x s)) =
                    calls (snd (ensure_shard c sh s)) @ [Generate t None]"
    using assms by (simp add: infer_tensor_token infer_wrapper_calls)
next
  assume r: "ndim x = 3"
  then have n: "shape x \<noteq> [1, 1]"
    by (auto simp add: ndim_def)
  then show "accumulated (snd (infer_tensor c rid sh x s)) = accumulated s"
    using assms by (simp add: infer_tensor_other)
  from n r show "\<exists>t. calls (snd (infer_tensor c rid sh x s)) =
                    calls (snd (ensure_shard c sh s)) @ [Generate t (Some x)]"
    using assms by (simp add: infer_tensor_other infer_wrapper_calls)
next
  assume o: "shape x \<noteq> [1, 1] \<and> ndim x \<noteq> 3"
  then show "accumulated (snd (infer_tensor c rid sh x s)) = accumulated s"
    using assms by (simp add: infer_tensor_other)
  let ?s1 = "record_request_id rid (snd (ensure_shard c sh s))"
  have run: "infer_tensor c rid sh x s = infer_wrapper c None ?s1"
    using o assms(1) by (simp add: infer_tensor_other)
  have m: "sharded_model ?s1 = Some m"
    using assms(2) by simp
  have "calls (snd (infer_tensor c rid sh x s)) =
          calls (snd (ensure_shard c sh s)) @ [Generate None None]"
    using m by (simp add: run infer_wrapper_calls)
  moreover have "\<forall>e. generate c m None None = Inl e \<longrightarrow> fst (infer_tensor c rid sh x s) = Inl e"
    using infer_wrapper_result(1) [OF m, of c None] by (simp add: run)
  moreover have "\<forall>hs lg. generate c m None None = Inr (Some hs, lg) \<longrightarrow>
                       fst (infer_tensor c rid sh x s) = Inr hs"
    using infer_wrapper_result(2) [OF m, of c None] by (simp add: run)
  ultimately show "\<exists>t. calls (snd (infer_tensor c rid sh x s)) =
                    calls (snd (ensure_shard c sh s)) @ [Generate t None]
                \<and> (\<forall>e. generate c m t None = Inl e \<longrightarrow>
                       fst (infer_tensor c rid sh x s) = Inl e)
                \<and> (\<forall>hs lg. generate c m t None = Inr (Some hs, lg) \<longrightarrow>
                       fst (infer_tensor c rid sh x s) = Inr hs)"
    by blast
qed


theorem input_shape_decides_the_path_witness:
  "fst (ensure_shard stub D1 (init False)) = Inr ()
   \<and> accumulated (snd (infer_tensor stub ''r'' D1 (NDArray [1, 1] [7]) (init False))) = [7]
   \<and> accumulated (snd (infer_tensor stub ''r'' D1 (NDArray [1, 1, 2] [3, 4]) (init False))) = []
   \<and> accumulated (snd (infer_tensor stub ''r'' D1 (NDArray [2, 2] [7, 8, 9, 10]) (init False))) = []
   \<and> fst (infer_tensor stub ''r'' D1 (NDArray [2, 2] [7, 8, 9, 10]) (init False))
       = Inr (NDArray [1, 1, 2] [0, 0])
   \<and> fst (infer_tensor stub_forward_fails ''r'' D1 (NDArray [2, 2] [7, 8, 9, 10]) (init False))
       = Inl (Raised ''InferenceFailure'')"
  using input_shape_decides_the_path [of stub D1 "init False" True "NDArray [1, 1] [7]" "''r''"]
    input_shape_decides_the_path [of stub D1 "init False" True "NDArray [1, 1, 2] [3, 4]" "''r''"]
    input_shape_decides_the_path
      [of stub D1 "init False" True "NDArray [2, 2] [7, 8, 9, 10]" "''r''"]
    input_shape_decides_the_path
      [of stub_forward_fails D1 "init False" True "NDArray [2, 2] [7, 8, 9, 10]" "''r''"]
  by (simp add: stubs ensure_shard_def Let_def tokens_wf_def well_formed_def accumulated_def ndim_def
      infer_tensor_def dispatch_input_def record_request_id_def infer_wrapper_def py_not_def
      torch_cat_last_def sample_def)

section \<open>The request identifier\<close>

lemma infer_tensor_request_id:
  "request_id (snd (infer_tensor c rid sh x s)) =
     (if fst (ensure_shard c sh s) = Inr () \<and> py_not (request_id s)
      then Some rid else request_id s)"
proof (cases "fst (ensure_shard c sh s)")
  case (Inl e)
  then show ?thesis
    by (simp add: infer_tensor_ensure_fails)
next
  case (Inr u)
  obtain s1 where e: "ensure_shard c sh s = (Inr (), s1)"
    using Inr by (cases "ensure_shard c sh s") auto
  have s1: "request_id s1 = request_id s"
    using ensure_shard_frame(2) [of c sh s] by (simp add: e)
  obtain r2 s2 where d: "dispatch_input x (record_request_id rid s1) = (r2, s2)"
    by (cases "dispatch_input x (record_request_id rid s1)") auto
  have s2: "request_id s2 = request_id (record_request_id rid s1)"
    using dispatch_input_frame(1) [of x "record_request_id rid s1"] by (simp add: d)
  have "request_id (snd (infer_tensor c rid sh x s)) = request_id s2"
    by (cases r2) (simp_all add: infer_tensor_def e d)
  also have "\<dots> = (if py_not (request_id s) then Some rid else request_id s)"
    by (simp add: s2 s1 record_request_id_def)
  finally show ?thesis
    by (simp add: e)
qed

lemma infer_all_request_id:
  "request_id s = Some r \<Longrightarrow> r \<noteq> [] \<Longrightarrow> request_id (infer_all cs s) = Some r"
proof (induction cs arbitrary: s)
  case Nil
  then show ?case by simp
next
  case (Cons a cs)
  obtain c rid sh x where a: "a = (c, rid, sh, x)"
    by (cases a) auto
  have "request_id (snd (infer_tensor c rid sh x s)) = Some r"
    using Cons.prems by (simp add: infer_tensor_request_id py_not_def)
  from Cons.IH [OF this Cons.prems(2)] a show ?case
    by simp
qed

text \<open>
  Claim C8, as the source has it. The claim says that once an identifier is recorded,
  every later call leaves it unchanged whatever identifier is passed. Line 111 tests
  \<^verbatim>\<open>not self.request_id\<close>, which is also true of the empty string: an engine whose
  first call recorded \<^verbatim>\<open>""\<close> records the next call's identifier over it.
\<close>

theorem request_id_empty_overwritten_counterexample:
  "request_id (snd (infer_tensor stub '''' D1 (NDArray [1, 1] [7]) (init False))) = Some ''''
   \<and> request_id (snd (infer_tensor stub ''b'' D1 (NDArray [1, 1] [8])
        (snd (infer_tensor stub '''' D1 (NDArray [1, 1] [7]) (init False))))) = Some ''b''"
  by (simp add: infer_tensor_request_id stubs ensure_shard_def Let_def py_not_def)


text \<open>
  Claim C8, amended. A call that gets past \<^verbatim>\<open>ensure_shard\<close> records the identifier
  it is given when none, or the empty string, is recorded; every other call leaves the
  recorded identifier as it is. So a non-empty identifier, once recorded, is unchanged
  by every later call, whatever identifier, descriptor and input the call is given.
\<close>

theorem request_id_kept_once_non_empty:
  "request_id (snd (infer_tensor c rid sh x s)) =
     (if fst (ensure_shard c sh s) = Inr () \<and> (request_id s = None \<or> request_id s = Some '''')
      then Some rid else request_id s)
   \<and> (\<forall>r cs. request_id s = Some r \<and> r \<noteq> [] \<longrightarrow> request_id (infer_all cs s) = Some r)"
  by (auto simp add: infer_tensor_request_id infer_all_request_id py_not_def split: option.splits)


theorem request_id_kept_once_non_empty_witness:
  "request_id (snd (infer_tensor stub ''a'' D1 (NDArray [1, 1] [7]) (init False))) = Some ''a''
   \<and> request_id (snd (infer_tensor stub_no_download ''a'' D1 (NDArray [1, 1] [7]) (init False)))
       = None
   \<and> request_id (infer_all [(stub, ''b'', D1, NDArray [1, 1] [8]), (stub, '''', D2, NDArray [2] [1, 2])]
        (snd (infer_tensor stub ''a'' D1 (NDArray [1, 1] [7]) (init False)))) = Some ''a''"
proof -
  let ?s1 = "snd (infer_tensor stub ''a'' D1 (NDArray [1, 1] [7]) (init False))"
  have first: "request_id ?s1 = Some ''a''"
    using request_id_kept_once_non_empty [of stub "''a''" D1 "NDArray [1, 1] [7]" "init False"]
    by (simp add: stubs ensure_shard_def Let_def py_not_def)
  have failed: "request_id (snd (infer_tensor stub_no_download ''a'' D1 (NDArray [1, 1] [7])
                   (init False))) = None"
    using request_id_kept_once_non_empty
      [of stub_no_download "''a''" D1 "NDArray [1, 1] [7]" "init False"]
    by (simp add: stubs ensure_shard_def Let_def py_not_def)
  have later: "request_id (infer_all [(stub, ''b'', D1, NDArray [1, 1] [8]),
                   (stub, '''', D2, NDArray [2] [1, 2])] ?s1) = Some ''a''"
    using request_id_kept_once_non_empty [of stub "''b''" D1 "NDArray [1, 1] [8]" ?s1] first
    by blast
  from first failed later show ?thesis
    by simp
qed

section \<open>The sampler\<close>

lemma hd_filter_upt_le: "j < n \<Longrightarrow> P j \<Longrightarrow> hd (filter P [0..<n]) \<le> j"
proof (induction n)
  case 0
  then show ?case by simp
next
  case (Suc n)
  show ?case
  proof (cases "j < n")
    case True
    then have "j \<in> set (filter P [0..<n])"
      using Suc.prems(2) by simp
    then have "filter P [0..<n] \<noteq> []"
      by (metis empty_iff list.set(1))
    then have "hd (filter P [0..<Suc n]) = hd (filter P [0..<n])"
      by simp
    with Suc.IH [OF True Suc.prems(2)] show ?thesis
      by simp
  next
    case False
    with Suc.prems(1) have j: "j = n"
      by simp
    show ?thesis
    proof (cases "filter P [0..<n] = []")
      case True
      then show ?thesis
        using Suc.prems(2) j by simp
    next
      case False
      then have "hd (filter P [0..<n]) \<in> set (filter P [0..<n])"
        by (rule hd_in_set)
      then have "hd (filter P [0..<n]) < n"
        by simp
      with False j show ?thesis
        by simp
    qed
  qed
qed

lemma hd_sort_key_first_min:
  fixes f :: "nat \<Rightarrow> real"
  assumes "0 < n"
  defines "m \<equiv> hd (sort_key f [0..<n])"
  shows "m < n" and "\<forall>j<n. f m \<le> f j" and "\<forall>j<m. f j \<noteq> f m"
proof -
  let ?ys = "sort_key f [0..<n]"
  have ne: "?ys \<noteq> []"
    using assms(1) by (metis length_sort length_upt less_numeral_extra(3) list.size(3) diff_zero)
  then obtain ys' where ys: "?ys = m # ys'"
    unfolding m_def by (cases ?ys) auto
  have "m \<in> set ?ys"
    by (simp add: ys)
  then show "m < n"
    by simp
  have "sorted (map f ?ys)"
    by (rule sorted_sort_key)
  then have "\<forall>y\<in>set ?ys. f m \<le> f y"
    by (auto simp add: ys)
  then show "\<forall>j<n. f m \<le> f j"
    by simp
  have "filter (\<lambda>y. f y = f m) ?ys = filter (\<lambda>y. f y = f m) [0..<n]"
    by (rule sort_key_stable)
  then have "filter (\<lambda>y. f y = f m) [0..<n] = m # filter (\<lambda>y. f y = f m) ys'"
    by (simp add: ys)
  then have hd: "hd (filter (\<lambda>y. f y = f m) [0..<n]) = m"
    by simp
  show "\<forall>j<m. f j \<noteq> f m"
  proof (intro allI impI notI)
    fix j
    assume "j < m" and "f j = f m"
    with \<open>m < n\<close> have "hd (filter (\<lambda>y. f y = f m) [0..<n]) \<le> j"
      by (intro hd_filter_upt_le) auto
    with hd \<open>j < m\<close> show False
      by simp
  qed
qed


lemma top_1_entry:
  assumes "row \<noteq> []"
  shows "\<exists>m. top_k_entries 1 row = [m] \<and> m < length row
           \<and> (\<forall>j<length row. row ! j \<le> row ! m) \<and> (\<forall>j<m. row ! j < row ! m)"
proof -
  let ?f = "\<lambda>i. - (row ! i)"
  let ?m = "hd (sort_key ?f [0..<length row])"
  have n: "0 < length row"
    using assms by simp
  note facts = hd_sort_key_first_min [OF n, of ?f]
  have "sort_key ?f [0..<length row] \<noteq> []"
    using n by (metis length_sort length_upt less_numeral_extra(3) list.size(3) diff_zero)
  then have "top_k_entries 1 row = [?m]"
    by (cases "sort_key ?f [0..<length row]") (simp_all add: top_k_entries_def)
  moreover have "\<forall>j<length row. row ! j \<le> row ! ?m"
    using facts(2) by simp
  moreover have "\<forall>j<?m. row ! j < row ! ?m"
  proof (intro allI impI)
    fix j
    assume j: "j < ?m"
    with facts(1) have "j < length row"
      by simp
    with facts(2) have "row ! j \<le> row ! ?m"
      by simp
    moreover from facts(3) j have "row ! j \<noteq> row ! ?m"
      by simp
    ultimately show "row ! j < row ! ?m"
      by simp
  qed
  ultimately show ?thesis
    using facts(1) by blast
qed

lemma sample_row_top_1:
  assumes "row \<noteq> []" and "0 < temp"
  shows "\<exists>m. sample_row rnd temp 1 row = Inr m \<and> m < length row
           \<and> (\<forall>j<length row. row ! j \<le> row ! m) \<and> (\<forall>j<m. row ! j < row ! m)"
proof -
  let ?sc = "scale_by_temperature temp row"
  have len: "length ?sc = length row"
    by (simp add: scale_by_temperature_def)
  then have "?sc \<noteq> []"
    using assms(1) by auto
  from top_1_entry [OF this] len obtain m where m: "top_k_entries 1 ?sc = [m]" "m < length row"
    "\<forall>j<length row. ?sc ! j \<le> ?sc ! m" "\<forall>j<m. ?sc ! j < ?sc ! m"
    by auto
  have nth: "?sc ! j = row ! j / temp" if "j < length row" for j
    using that by (simp add: scale_by_temperature_def)
  have "\<forall>j<length row. row ! j \<le> row ! m"
    using m(2,3) nth assms(2) by (simp add: divide_le_cancel)
  moreover have "\<forall>j<m. row ! j < row ! m"
    using m(2,4) nth assms(2) by (simp add: divide_less_cancel)
  moreover have "sample_row rnd temp 1 row = Inr m"
    using m(1) by (simp add: sample_row_def draw_one_def)
  ultimately show ?thesis
    using m(2) by blast
qed

lemma sample_row_top_1_any_source:
  "sample_row rnd temp 1 row = sample_row rnd' temp 1 row"
proof -
  have "length (top_k_entries 1 (scale_by_temperature temp row)) \<le> 1"
    by (simp add: top_k_entries_def)
  then show ?thesis
    by (cases "top_k_entries 1 (scale_by_temperature temp row)")
      (simp_all add: sample_row_def draw_one_def)
qed

lemma take_drop_concat_nth:
  "\<forall>xs\<in>set xss. length xs = v \<Longrightarrow> i < length xss \<Longrightarrow>
     take v (drop (i * v) (concat xss)) = xss ! i"
proof (induction xss arbitrary: i)
  case Nil
  then show ?case by simp
next
  case (Cons xs xss)
  then show ?case
    by (cases i) simp_all
qed

lemma last_position_batch:
  "shape x = [b, s, v] \<Longrightarrow> 0 < s \<Longrightarrow>
     last_position x = Inr (NDArray [b, v] (concat (map (final_logits x) [0..<b])))"
  by (simp add: last_position_def final_logits_def [abs_def])

lemma length_final_logits:
  assumes "shape x = [b, s, v]" and "well_formed x" and "0 < s" and "i < b"
  shows "length (final_logits x i) = v"
proof -
  have "i * s + s \<le> b * s"
    using assms(4) by (metis Suc_leI mult_Suc mult_le_mono1 add.commute)
  then have "(i * s + s) * v \<le> b * s * v"
    by (rule mult_le_mono1)
  moreover have "(i * s + s) * v = (i * s + (s - 1)) * v + v"
    using assms(3) by (cases s) (simp_all add: algebra_simps)
  moreover have "length (data x) = b * s * v"
    using assms(1,2) by (simp add: well_formed_def)
  ultimately show ?thesis
    using assms(1) by (simp add: final_logits_def)
qed

lemma collect_all_Inr: "collect (map (\<lambda>i. Inr (g i)) is) = Inr (map g is)"
  by (induction "is") simp_all


lemma await_sample:
  "await (sample tt x temp top_k) =
     (case last_position x of Inl e \<Rightarrow> Inl e | Inr logits \<Rightarrow> tt logits temp top_k)"
  by (simp add: sample_def)

lemma await_sample_batch:
  "shape x = [b, s, v] \<Longrightarrow> 0 < s \<Longrightarrow>
     await (sample tt x temp top_k) =
       tt (NDArray [b, v] (concat (map (final_logits x) [0..<b]))) temp top_k"
  by (simp add: await_sample last_position_batch)

lemma tt_sample_spec_top_1_any_source:
  "tt_sample_spec rnd' logits temp 1 = tt_sample_spec rnd logits temp 1"
proof -
  have "(\<lambda>i. sample_row (rnd' i) temp 1 (R i)) = (\<lambda>i. sample_row (rnd i) temp 1 (R i))" for R
    by (rule ext) (rule sample_row_top_1_any_source)
  then show ?thesis
    unfolding tt_sample_spec_def by simp
qed

lemma tt_sample_spec_top_1:
  fixes x :: "real ndarray"
  assumes "shape x = [b, s, v]" and "well_formed x" and "0 < s" and "0 < v" and "0 < temp"
  shows "\<exists>toks. tt_sample_spec rnd (NDArray [b, v] (concat (map (final_logits x) [0..<b]))) temp 1
                  = Inr (NDArray [b, 1] toks)
           \<and> length toks = b
           \<and> (\<forall>i<b. toks ! i < v
                 \<and> (\<forall>j<v. final_logits x i ! j \<le> final_logits x i ! (toks ! i))
                 \<and> (\<forall>j<toks ! i. final_logits x i ! j < final_logits x i ! (toks ! i)))"
proof -
  let ?L = "concat (map (final_logits x) [0..<b])"
  let ?g = "\<lambda>i. projr (sample_row (rnd i) temp 1 (final_logits x i))"
  have len: "length (final_logits x i) = v" if "i < b" for i
    using length_final_logits [OF assms(1-3) that] .
  have row: "take v (drop (i * v) ?L) = final_logits x i" if "i < b" for i
    using take_drop_concat_nth [of "map (final_logits x) [0..<b]" v i] len that by simp
  have pick: "sample_row (rnd i) temp 1 (final_logits x i) = Inr (?g i)
      \<and> ?g i < v
      \<and> (\<forall>j<v. final_logits x i ! j \<le> final_logits x i ! (?g i))
      \<and> (\<forall>j<?g i. final_logits x i ! j < final_logits x i ! (?g i))" if "i < b" for i
  proof -
    have "final_logits x i \<noteq> []"
      using len [OF that] assms(4) by auto
    from sample_row_top_1 [OF this assms(5), of "rnd i"] len [OF that] show ?thesis
      by auto
  qed
  have "map (\<lambda>i. sample_row (rnd i) temp 1 (take v (drop (i * v) ?L))) [0..<b]
          = map (\<lambda>i. Inr (?g i)) [0..<b]"
    using row pick by (intro map_cong) auto
  then have "tt_sample_spec rnd (NDArray [b, v] ?L) temp 1 = Inr (NDArray [b, 1] (map ?g [0..<b]))"
    by (simp add: tt_sample_spec_def collect_all_Inr del: map_eq_conv)
  moreover have "length (map ?g [0..<b]) = b"
    by simp
  moreover have "\<forall>i<b. map ?g [0..<b] ! i < v
                 \<and> (\<forall>j<v. final_logits x i ! j \<le> final_logits x i ! (map ?g [0..<b] ! i))
                 \<and> (\<forall>j<map ?g [0..<b] ! i.
                        final_logits x i ! j < final_logits x i ! (map ?g [0..<b] ! i))"
    using pick by simp
  ultimately show ?thesis
    by blast
qed

text \<open>
  Claim C7. Selection uses only the final-position logits: two batches with the same
  logits at the final position of every batch entry give the same result, whatever the
  primitive, temperature and top-k, and whatever stands at earlier positions. With a
  positive temperature and top-k 1, the token returned for each batch entry is the
  arg-max of its final-position logits (the first index that attains the maximum), and
  the result is the same for every random source, so repeated calls with the same
  logits return the same token. The second and third part are about the sampling
  primitive as the spec describes it (\<open>tt_sample_spec\<close>).
\<close>

theorem sample_final_position_top_1:
  fixes x :: "real ndarray"
  assumes "shape x = [b, s, v]" and "well_formed x" and "0 < s" and "0 < v" and "0 < temp"
  shows "(\<forall>(tt :: real ndarray \<Rightarrow> real \<Rightarrow> int \<Rightarrow> error + 't ndarray) t k x' s'.
            shape x' = [b, s', v] \<and> 0 < s' \<and> (\<forall>i<b. final_logits x' i = final_logits x i) \<longrightarrow>
              await (sample tt x' t k) = await (sample tt x t k))
       \<and> (\<exists>toks. await (sample (tt_sample_spec rnd) x temp 1) = Inr (NDArray [b, 1] toks)
              \<and> length toks = b
              \<and> (\<forall>i<b. toks ! i < v
                    \<and> (\<forall>j<v. final_logits x i ! j \<le> final_logits x i ! (toks ! i))
                    \<and> (\<forall>j<toks ! i. final_logits x i ! j < final_logits x i ! (toks ! i))))
       \<and> (\<forall>rnd'. await (sample (tt_sample_spec rnd') x temp 1)
                    = await (sample (tt_sample_spec rnd) x temp 1))"
proof (intro conjI allI impI)
  fix tt :: "real ndarray \<Rightarrow> real \<Rightarrow> int \<Rightarrow> error + 't ndarray"
  fix t k x' s'
  assume h: "shape x' = [b, s', v] \<and> 0 < s' \<and> (\<forall>i<b. final_logits x' i = final_logits x i)"
  then have "map (final_logits x') [0..<b] = map (final_logits x) [0..<b]"
    by (intro map_cong) auto
  then show "await (sample tt x' t k) = await (sample tt x t k)"
    using h assms(1,3) by (simp add: await_sample_batch del: map_eq_conv)
next
  show "\<exists>toks. await (sample (tt_sample_spec rnd) x temp 1) = Inr (NDArray [b, 1] toks)
              \<and> length toks = b
              \<and> (\<forall>i<b. toks ! i < v
                    \<and> (\<forall>j<v. final_logits x i ! j \<le> final_logits x i ! (toks ! i))
                    \<and> (\<forall>j<toks ! i. final_logits x i ! j < final_logits x i ! (toks ! i)))"
    using tt_sample_spec_top_1 [OF assms, of rnd] assms(1,3) by (simp add: await_sample_batch)
next
  fix rnd'
  show "await (sample (tt_sample_spec rnd') x temp 1) = await (sample (tt_sample_spec rnd) x temp 1)"
    by (simp add: await_sample tt_sample_spec_top_1_any_source [of rnd' _ temp rnd]
        split: sum.splits)
qed

theorem sample_final_position_top_1_witness:
  "shape (NDArray [2, 2, 3] [9, 9, 9, 1, 5, 2, 0, 0, 0, 4, 4, 1 :: real]) = [2, 2, 3]
   \<and> well_formed (NDArray [2, 2, 3] [9, 9, 9, 1, 5, 2, 0, 0, 0, 4, 4, 1 :: real])
   \<and> await (sample (tt_sample_spec (\<lambda>i. 5))
        (NDArray [2, 2, 3] [9, 9, 9, 1, 5, 2, 0, 0, 0, 4, 4, 1]) (1 / 100) 1)
       = Inr (NDArray [2, 1] [1, 0])
   \<and> await (sample (tt_sample_spec (\<lambda>i. 8))
        (NDArray [2, 2, 3] [9, 9, 9, 1, 5, 2, 0, 0, 0, 4, 4, 1]) (1 / 100) 1)
       = Inr (NDArray [2, 1] [1, 0])
   \<and> await (sample (tt_sample_spec (\<lambda>i. 5))
        (NDArray [2, 1, 3] [1, 5, 2, 4, 4, 1]) (1 / 100) 1)
       = Inr (NDArray [2, 1] [1, 0])"
proof -
  let ?x = "NDArray [2, 2, 3] [9, 9, 9, 1, 5, 2, 0, 0, 0, 4, 4, 1 :: real]"
  let ?x' = "NDArray [2, 1, 3] [1, 5, 2, 4, 4, 1 :: real]"
  have sh: "shape ?x = [2, 2, 3]" and wf: "well_formed ?x"
    by (simp_all add: well_formed_def)
  have sh': "shape ?x' = [2, 1, 3]" and pos: "(0 :: nat) < 1" "(0 :: nat) < 2" "(0 :: nat) < 3"
    "(0 :: real) < 1 / 100"
    by simp_all
  note claim = sample_final_position_top_1 [where 't = nat, OF sh wf pos(2) pos(3) pos(4), of "\<lambda>i. 5"]
  have ev: "await (sample (tt_sample_spec (\<lambda>i. 5)) ?x (1 / 100) 1) = Inr (NDArray [2, 1] [1, 0])"
    by (simp add: await_sample last_position_def tt_sample_spec_def sample_row_def draw_one_def
        top_k_entries_def scale_by_temperature_def upt_rec [of _ "numeral _"]
        upt_rec [of _ "Suc _"])
  have same: "\<forall>i<2. final_logits ?x' i = final_logits ?x i"
    by (auto simp add: final_logits_def less_Suc_eq numeral_2_eq_2)
  from claim have other_source:
    "await (sample (tt_sample_spec (\<lambda>i. 8)) ?x (1 / 100) 1)
       = await (sample (tt_sample_spec (\<lambda>i. 5)) ?x (1 / 100) 1)"
    by blast
  from claim same sh' pos(1) have other_batch:
    "await (sample (tt_sample_spec (\<lambda>i. 5)) ?x' (1 / 100) 1)
       = await (sample (tt_sample_spec (\<lambda>i. 5)) ?x (1 / 100) 1)"
    by blast
  from sh wf ev other_source other_batch show ?thesis
    by simp
qed

text \<open>
  Claim C9, as the source has it. The claim says that \<^verbatim>\<open>sample\<close> raises when top-k
  exceeds the vocabulary size or the temperature is not positive. Lines 83-95 check
  neither: with a primitive that does not raise, temperature 0 with top-k 5 on a
  vocabulary of 3, and temperature -1, both return a token.
\<close>

theorem sample_bad_arguments_counterexample:
  "await (sample (tt_sample stub) (NDArray [1, 2, 3] [0, 0, 0, 1, 5, 2]) 0 5)
     = Inr (NDArray [1, 1] [0])
   \<and> await (sample (tt_sample stub) (NDArray [1, 2, 3] [0, 0, 0, 1, 5, 2]) (- 1) 25)
     = Inr (NDArray [1, 1] [0])"
  by (simp add: await_sample last_position_def stubs)


text \<open>
  Claim C9, amended. \<^verbatim>\<open>sample\<close> checks neither argument: on a batch of shape (batch,
  sequence, vocabulary) with a non-empty sequence it returns what the sampling primitive
  returns for the final-position logits and the temperature and top-k as passed. So it
  raises exactly when the primitive raises, and with a primitive that never raises it
  returns a result for every temperature and top-k.
\<close>

theorem sample_adds_no_validation:
  assumes "shape x = [b, s, v]" and "0 < s"
  shows "await (sample tt x temp top_k)
           = tt (NDArray [b, v] (concat (map (final_logits x) [0..<b]))) temp top_k
       \<and> ((\<forall>l t k. \<exists>r. tt l t k = Inr r) \<longrightarrow> (\<exists>r. await (sample tt x temp top_k) = Inr r))"
  using assms by (simp add: await_sample_batch)


theorem sample_adds_no_validation_witness:
  "shape (NDArray [1, 2, 3] [0, 0, 0, 1, 5, 2 :: int]) = [1, 2, 3]
   \<and> await (sample (tt_sample stub) (NDArray [1, 2, 3] [0, 0, 0, 1, 5, 2]) (6 / 10) 25)
       = tt_sample stub (NDArray [1, 3] [1, 5, 2]) (6 / 10) 25"
  using sample_adds_no_validation [of "NDArray [1, 2, 3] [0, 0, 0, 1, 5, 2 :: int]" 1 2 3 "tt_sample stub" "6 / 10" 25]
  by (simp add: final_logits_def)

end
